theory Spec2Isabelle
  imports Complex_Main "HOL-Library.Multiset"
begin

section \<open>Program state of TTTRobot.py\<close>

text \<open>
  TTTRobot.py keeps its state in module globals: the 3x3 numpy array \<^verbatim>\<open>board\<close>
  (0 = empty, 1 = player/blue, 2 = robot/red), the two lists \<^verbatim>\<open>blue_blocks_used\<close> and
  \<^verbatim>\<open>red_blocks_used\<close>, and the servo kit. The model gathers them in one record that
  every operation takes and returns, together with the lines the program prints.

  The board is a list of rows of unbounded integers. The source indexes it with
  \<^verbatim>\<open>range(3)\<close> only, which is in range exactly on arrays of shape (3, 3); the predicate
  \<open>shape3x3\<close> states that shape and the theorems below assume it (on a smaller array numpy
  raises IndexError, which is not modelled).

  A servo channel is in one of three conditions, by what a read of
  \<^verbatim>\<open>kit.servo[n].angle\<close> does: the read raises (\<open>ReadFails\<close>), it returns None
  (\<open>NoAngle\<close>), or it returns the angle last written (\<open>Angle a\<close>). A write stores the
  angle and is taken to succeed (the range check of the servo driver is outside the
  source). Angles are Python floats: the rationals that are IEEE 754 doubles, with every
  arithmetic operation rounded to the nearest double (section "Python floats").
  \<^verbatim>\<open>time.sleep\<close> changes no state and is left out.
\<close>

type_synonym board = "int list list"
type_synonym coords = "nat \<times> nat"

record pose =
  base :: rat
  shoulder :: rat
  elbow :: rat
  wrist_pitch :: rat
  wrist_roll :: rat

text \<open>What a read of \<^verbatim>\<open>kit.servo[n].angle\<close> does.\<close>

datatype reading = ReadFails | NoAngle | Angle rat

text \<open>One constructor for each \<^verbatim>\<open>print\<close> of the functions modelled.\<close>

datatype event =
    MovingArmTo pose
  | ArmInPosition
  | OpeningClaw
  | ClosingClaw
  | NoMoreBlocksWarning
  | NoBlocksError
  | PickingUpRed nat
  | PickingUpBlue nat
  | PlacingBlockAt nat nat
  | MovingToHome
  | FailedToAnalyze
  | FailedToDetect
  | DetectedPlayerMove nat nat
  | NoValidPlayerMove
  | WaitingForPlayer
  | NoMoveYet
  | TimeoutWaiting
  | BoardDisplayed board
  | StartingGame
  | FailedInitialScan
  | BoardNotEmptyWarning
  | WaitingFirstMove
  | GameAborted
  | PlayerWins
  | ItsADraw
  | RobotsTurn
  | RobotDecides nat nat
  | RobotWins
  | OutOfBlocks
  | GameOver

record world =
  board :: board
  blue_blocks_used :: "bool list"
  red_blocks_used :: "bool list"
  servo :: "nat \<Rightarrow> reading"
  printed :: "event list"

text \<open>
  Python exceptions that the modelled code can raise and does not catch. An operation
  returns its result or the exception, and the state it leaves behind.
\<close>

datatype error = TypeError | KeyError | ZeroDivisionError | ActuatorFault

type_synonym 'a cmd = "world \<Rightarrow> (error + 'a) \<times> world"

definition ret :: "'a \<Rightarrow> 'a cmd" where
  "ret x w = (Inr x, w)"

definition raise :: "error \<Rightarrow> 'a cmd" where
  "raise e w = (Inl e, w)"

text \<open>Sequencing: the second statement runs in the state the first one left, unless it raised.\<close>

definition seq :: "'a cmd \<Rightarrow> ('a \<Rightarrow> 'b cmd) \<Rightarrow> 'b cmd" where
  "seq m f w = (case m w of (Inl e, w') \<Rightarrow> (Inl e, w') | (Inr x, w') \<Rightarrow> f x w')"

definition print_line :: "event \<Rightarrow> unit cmd" where
  "print_line e w = (Inr (), w\<lparr>printed := printed w @ [e]\<rparr>)"

section \<open>Python floats\<close>

text \<open>
  Python's \<^verbatim>\<open>float\<close> is the IEEE 754 double: 53 significant bits, every operation rounded
  to the nearest double, ties to the even significand. A double is modelled by the
  rational it denotes, \<open>to_double\<close> rounds a rational to the nearest double, and each
  operation rounds its exact result. Overflow, subnormal numbers, infinities and NaN are
  left out: servo angles stay far from them. The integers of the pose tables are doubles
  themselves, so Python's \<^verbatim>\<open>int\<close> operands need no separate case: a sum or difference of
  small integers is exact, and \<^verbatim>\<open>int / int\<close> is the correctly rounded quotient.
\<close>

text \<open>The number of binary digits of a positive integer.\<close>

function bit_length :: "int \<Rightarrow> int" where
  "bit_length n = (if n \<le> 0 then 0 else 1 + bit_length (n div 2))"
  by pat_completeness auto
termination
  by (relation "measure nat") auto

definition pow2 :: "int \<Rightarrow> rat" where
  "pow2 k = (if 0 \<le> k then 2 ^ nat k else 1 / 2 ^ nat (- k))"

definition round_half_even :: "rat \<Rightarrow> int" where
  "round_half_even x =
     (let f = \<lfloor>x\<rfloor>; d = x - of_int f
      in if d < 1 / 2 then f else if 1 / 2 < d then f + 1 else if even f then f else f + 1)"

text \<open>
  The binary exponent \<open>\<lfloor>log\<^sub>2 \<bar>x\<bar>\<rfloor>\<close> of a nonzero rational: for \<open>\<bar>x\<bar> = p / q\<close> it is
  the difference of the bit lengths of \<open>p\<close> and \<open>q\<close> or one less.
\<close>

definition exponent :: "rat \<Rightarrow> int" where
  "exponent x =
     (case quotient_of \<bar>x\<bar> of
        (p, q) \<Rightarrow>
          (let k = bit_length p - bit_length q
           in if pow2 k \<le> \<bar>x\<bar> then k else k - 1))"

definition to_double :: "rat \<Rightarrow> rat" where
  "to_double x =
     (if x = 0 then 0
      else (let e = exponent x - 52 in of_int (round_half_even (x / pow2 e)) * pow2 e))"

text \<open>Python's \<^verbatim>\<open>+\<close>, \<^verbatim>\<open>-\<close>, \<^verbatim>\<open>*\<close> and \<^verbatim>\<open>/\<close> on floats.\<close>

definition fadd :: "rat \<Rightarrow> rat \<Rightarrow> rat" where
  "fadd a b = to_double (a + b)"

definition fsub :: "rat \<Rightarrow> rat \<Rightarrow> rat" where
  "fsub a b = to_double (a - b)"

definition fmul :: "rat \<Rightarrow> rat \<Rightarrow> rat" where
  "fmul a b = to_double (a * b)"

definition fdiv :: "rat \<Rightarrow> rat \<Rightarrow> rat" where
  "fdiv a b = to_double (a / b)"

section \<open>The board and the rule engine\<close>

definition shape3x3 :: "board \<Rightarrow> bool" where
  "shape3x3 b = (length b = 3 \<and> list_all (\<lambda>row. length row = 3) b)"

text \<open>\<^verbatim>\<open>board[row, col]\<close> and \<^verbatim>\<open>board[row, col] = v\<close>.\<close>

definition cell :: "board \<Rightarrow> nat \<Rightarrow> nat \<Rightarrow> int" where
  "cell b row col = b ! row ! col"

definition set_cell :: "board \<Rightarrow> nat \<Rightarrow> nat \<Rightarrow> int \<Rightarrow> board" where
  "set_cell b row col v = b[row := (b ! row)[col := v]]"

text \<open>\<^verbatim>\<open>np.zeros((3, 3), dtype=int)\<close>.\<close>

definition zeros3x3 :: board where
  "zeros3x3 = replicate 3 (replicate 3 0)"

text \<open>
  \<^verbatim>\<open>check_win(board, player)\<close>: the three row tests \<^verbatim>\<open>np.all(board[row, :] == player)\<close>,
  the three column tests \<^verbatim>\<open>np.all(board[:, col] == player)\<close>, then the two diagonals, each
  returning True at the first hit; False at the end.
\<close>

definition check_win :: "board \<Rightarrow> int \<Rightarrow> bool" where
  "check_win b player =
     (if list_ex (\<lambda>row. list_all (\<lambda>x. x = player) (b ! row)) [0..<3] then True
      else if list_ex (\<lambda>col. list_all (\<lambda>x. x = player) (map (\<lambda>r. r ! col) b)) [0..<3] then True
      else if cell b 0 0 = player \<and> cell b 1 1 = player \<and> cell b 2 2 = player then True
      else if cell b 0 2 = player \<and> cell b 1 1 = player \<and> cell b 2 0 = player then True
      else False)"

text \<open>\<^verbatim>\<open>check_draw(board)\<close>: \<^verbatim>\<open>0 not in board\<close>, a test over all elements of the array.\<close>

definition check_draw :: "board \<Rightarrow> bool" where
  "check_draw b = (\<not> list_ex (\<lambda>row. list_ex (\<lambda>x. x = 0) row) b)"

text \<open>
  The row-major scan \<^verbatim>\<open>for row in range(3): for col in range(3):\<close> visits the
  coordinates in this order.
\<close>

definition all_cells :: "coords list" where
  "all_cells = concat (map (\<lambda>row. map (\<lambda>col. (row, col)) [0..<3]) [0..<3])"

text \<open>
  The two lookahead loops of \<^verbatim>\<open>get_robot_move\<close> differ in the mark only (2 for the
  robot's own win, 1 for the block). The loop writes the mark into an empty cell of the
  shared array, tests \<^verbatim>\<open>check_win\<close>, and writes 0 back before it returns or goes on.
  The model threads the array through the scan and returns it with the result.
\<close>

fun try_cells :: "int \<Rightarrow> coords list \<Rightarrow> board \<Rightarrow> coords option \<times> board" where
  "try_cells mark [] b = (None, b)"
| "try_cells mark ((row, col) # rest) b =
     (if cell b row col = 0 then
        (let b1 = set_cell b row col mark in
         if check_win b1 mark then (Some (row, col), set_cell b1 row col 0)
         else try_cells mark rest (set_cell b1 row col 0))
      else try_cells mark rest b)"

definition corners :: "coords list" where
  "corners = [(0, 0), (0, 2), (2, 0), (2, 2)]"

definition edges :: "coords list" where
  "edges = [(0, 1), (1, 0), (1, 2), (2, 1)]"

text \<open>\<^verbatim>\<open>for row, col in cells: if board[row, col] == 0: return row, col\<close>.\<close>

definition first_empty :: "board \<Rightarrow> coords list \<Rightarrow> coords option" where
  "first_empty b cells = find (\<lambda>(row, col). cell b row col = 0) cells"

text \<open>
  \<^verbatim>\<open>get_robot_move()\<close> on the array. The two calls of \<^verbatim>\<open>random.shuffle\<close> are the only
  nondeterminism; their results, the shuffled corner list and the shuffled edge list, are
  parameters. Falling off the end of the Python function returns None.
\<close>

definition robot_move :: "coords list \<Rightarrow> coords list \<Rightarrow> board \<Rightarrow> coords option \<times> board" where
  "robot_move shuffled_corners shuffled_edges b =
     (case try_cells 2 all_cells b of
        (Some mv, b1) \<Rightarrow> (Some mv, b1)
      | (None, b1) \<Rightarrow>
          (case try_cells 1 all_cells b1 of
             (Some mv, b2) \<Rightarrow> (Some mv, b2)
           | (None, b2) \<Rightarrow>
               if cell b2 1 1 = 0 then (Some (1, 1), b2)
               else (case first_empty b2 shuffled_corners of
                       Some mv \<Rightarrow> (Some mv, b2)
                     | None \<Rightarrow>
                         (case first_empty b2 shuffled_edges of
                            Some mv \<Rightarrow> (Some mv, b2)
                          | None \<Rightarrow> (None, b2)))))"

text \<open>\<^verbatim>\<open>get_robot_move()\<close> on the program state: it works on the global array.\<close>

definition get_robot_move :: "coords list \<Rightarrow> coords list \<Rightarrow> coords option cmd" where
  "get_robot_move shuffled_corners shuffled_edges w =
     (case robot_move shuffled_corners shuffled_edges (board w) of
        (mv, b') \<Rightarrow> (Inr mv, w\<lparr>board := b'\<rparr>))"

section \<open>Motion sequencer\<close>

definition SERVO_BASE :: nat where "SERVO_BASE = 0"
definition SERVO_SHOULDER :: nat where "SERVO_SHOULDER = 1"
definition SERVO_ELBOW :: nat where "SERVO_ELBOW = 2"
definition SERVO_WRIST_PITCH :: nat where "SERVO_WRIST_PITCH = 3"
definition SERVO_WRIST_ROLL :: nat where "SERVO_WRIST_ROLL = 4"
definition SERVO_CLAW :: nat where "SERVO_CLAW = 5"

text \<open>The pose tables of the source.\<close>

definition board_pose :: "rat \<Rightarrow> rat \<Rightarrow> pose" where
  "board_pose b s = \<lparr>base = b, shoulder = s, elbow = 45, wrist_pitch = 0, wrist_roll = 90\<rparr>"

definition board_positions :: "coords \<Rightarrow> pose option" where
  "board_positions = map_of
     [((0, 0), board_pose 30 90), ((0, 1), board_pose 30 100), ((0, 2), board_pose 30 110),
      ((1, 0), board_pose 60 90), ((1, 1), board_pose 60 100), ((1, 2), board_pose 60 110),
      ((2, 0), board_pose 90 90), ((2, 1), board_pose 90 100), ((2, 2), board_pose 90 110)]"

definition blue_storage :: "nat \<Rightarrow> pose option" where
  "blue_storage = map_of
     [(1, board_pose 150 80), (2, board_pose 150 90), (3, board_pose 150 100),
      (4, board_pose 150 110), (5, board_pose 150 120)]"

definition red_storage :: "nat \<Rightarrow> pose option" where
  "red_storage = map_of
     [(1, board_pose 180 80), (2, board_pose 180 90), (3, board_pose 180 100),
      (4, board_pose 180 110), (5, board_pose 180 120)]"

definition home_position :: pose where
  "home_position = \<lparr>base = 120, shoulder = 45, elbow = 90, wrist_pitch = 0, wrist_roll = 90\<rparr>"

text \<open>
  \<^verbatim>\<open>kit.servo[n].angle = a\<close>, and a read of \<^verbatim>\<open>kit.servo[n].angle\<close> outside any
  \<^verbatim>\<open>try\<close>: its exception propagates, and its value is an angle or Python's None.
\<close>

definition set_angle :: "nat \<Rightarrow> rat \<Rightarrow> world \<Rightarrow> world" where
  "set_angle n a w = w\<lparr>servo := (servo w)(n := Angle a)\<rparr>"

definition read_angle :: "nat \<Rightarrow> rat option cmd" where
  "read_angle n w =
     (case servo w n of
        ReadFails \<Rightarrow> (Inl ActuatorFault, w)
      | NoAngle \<Rightarrow> (Inr None, w)
      | Angle a \<Rightarrow> (Inr (Some a), w))"

text \<open>
  \<^verbatim>\<open>move_servo_smoothly(servo_num, target_angle, current_angle=None, steps=10, delay=0.05)\<close>.
  Without a given \<^verbatim>\<open>current_angle\<close> the servo is read inside \<^verbatim>\<open>try\<close>: the target is the
  starting point when the read raises, and the starting point is None when the read
  returns None. Then \<^verbatim>\<open>(target_angle - current_angle) / steps\<close> raises TypeError on None
  and ZeroDivisionError at 0 steps. The loop commands
  \<^verbatim>\<open>current_angle + step_size * (step + 1)\<close>, in floats, for each step of \<^verbatim>\<open>range(steps)\<close>;
  there is no write of the target itself after the loop.
\<close>

definition move_servo_smoothly :: "nat \<Rightarrow> rat \<Rightarrow> rat option \<Rightarrow> nat \<Rightarrow> unit cmd" where
  "move_servo_smoothly servo_num target_angle current_angle steps w =
     (let start = (case current_angle of
                     Some c \<Rightarrow> Some c
                   | None \<Rightarrow> (case servo w servo_num of
                                ReadFails \<Rightarrow> Some target_angle
                              | NoAngle \<Rightarrow> None
                              | Angle a \<Rightarrow> Some a))
      in case start of
           None \<Rightarrow> (Inl TypeError, w)
         | Some current \<Rightarrow>
             if steps = 0 then (Inl ZeroDivisionError, w)
             else (let step_size = fdiv (fsub target_angle current) (of_nat steps)
                   in (Inr (),
                       fold (\<lambda>step. set_angle servo_num
                                      (fadd current (fmul step_size (of_nat (step + 1)))))
                            [0..<steps] w)))"

text \<open>Every call site of the source leaves \<^verbatim>\<open>current_angle\<close> and \<^verbatim>\<open>steps\<close> at their defaults.\<close>

definition smoothly :: "nat \<Rightarrow> rat \<Rightarrow> unit cmd" where
  "smoothly servo_num target_angle = move_servo_smoothly servo_num target_angle None 10"

definition move_arm_to_position :: "pose \<Rightarrow> bool \<Rightarrow> unit cmd" where
  "move_arm_to_position position smooth =
     seq (print_line (MovingArmTo position)) (\<lambda>_.
     seq (if smooth then
            seq (smoothly SERVO_BASE (base position)) (\<lambda>_.
            seq (smoothly SERVO_SHOULDER (shoulder position)) (\<lambda>_.
            seq (smoothly SERVO_ELBOW (elbow position)) (\<lambda>_.
            seq (smoothly SERVO_WRIST_PITCH (wrist_pitch position)) (\<lambda>_.
                 smoothly SERVO_WRIST_ROLL (wrist_roll position)))))
          else
            (\<lambda>w. (Inr (),
               set_angle SERVO_WRIST_ROLL (wrist_roll position)
                (set_angle SERVO_WRIST_PITCH (wrist_pitch position)
                  (set_angle SERVO_ELBOW (elbow position)
                    (set_angle SERVO_SHOULDER (shoulder position)
                      (set_angle SERVO_BASE (base position) w))))))) (\<lambda>_.
     print_line ArmInPosition))"

definition open_claw :: "unit cmd" where
  "open_claw = seq (print_line OpeningClaw) (\<lambda>_. smoothly SERVO_CLAW 0)"

definition close_claw :: "unit cmd" where
  "close_claw = seq (print_line ClosingClaw) (\<lambda>_. smoothly SERVO_CLAW 90)"

section \<open>Piece inventory\<close>

text \<open>
  \<^verbatim>\<open>for i, used in enumerate(blocks_used): if not used: ...\<close>: the index of the first
  unused entry, counting from \<open>i\<close>.
\<close>

fun first_unused :: "nat \<Rightarrow> bool list \<Rightarrow> nat option" where
  "first_unused i [] = None"
| "first_unused i (used # rest) = (if \<not> used then Some i else first_unused (Suc i) rest)"

definition blocks_used :: "bool \<Rightarrow> world \<Rightarrow> bool list" where
  "blocks_used is_robot_block w = (if is_robot_block then red_blocks_used w else blue_blocks_used w)"

definition store_blocks_used :: "bool \<Rightarrow> bool list \<Rightarrow> world \<Rightarrow> world" where
  "store_blocks_used is_robot_block bs w =
     (if is_robot_block then w\<lparr>red_blocks_used := bs\<rparr> else w\<lparr>blue_blocks_used := bs\<rparr>)"

text \<open>
  \<^verbatim>\<open>get_next_available_block(is_robot_block)\<close>: marks the first unused entry of the side's
  list and returns its 1-based number; None, after a warning, when every entry is used.
\<close>

definition get_next_available_block :: "bool \<Rightarrow> nat option cmd" where
  "get_next_available_block is_robot_block w =
     (case first_unused 0 (blocks_used is_robot_block w) of
        Some i \<Rightarrow>
          (Inr (Some (i + 1)),
           store_blocks_used is_robot_block ((blocks_used is_robot_block w)[i := True]) w)
      | None \<Rightarrow> seq (print_line NoMoreBlocksWarning) (\<lambda>_. ret None) w)"

text \<open>A dictionary lookup \<^verbatim>\<open>table[key]\<close>, which raises KeyError on a missing key.\<close>

definition lookup :: "('k \<Rightarrow> 'v option) \<Rightarrow> 'k \<Rightarrow> 'v cmd" where
  "lookup table k = (case table k of None \<Rightarrow> raise KeyError | Some v \<Rightarrow> ret v)"

text \<open>
  \<^verbatim>\<open>pick_block(is_robot_block)\<close>. The wrist angle is read after the claw has opened;
  \<^verbatim>\<open>current_wrist + 30\<close> is a float sum and raises TypeError when the read returned None.
\<close>

definition pick_block :: "bool \<Rightarrow> bool cmd" where
  "pick_block is_robot_block =
     seq (get_next_available_block is_robot_block) (\<lambda>block_num.
       case block_num of
         None \<Rightarrow> seq (print_line NoBlocksError) (\<lambda>_. ret False)
       | Some n \<Rightarrow>
           seq (if is_robot_block then
                  seq (print_line (PickingUpRed n)) (\<lambda>_.
                  seq (lookup red_storage n) (\<lambda>position. move_arm_to_position position True))
                else
                  seq (print_line (PickingUpBlue n)) (\<lambda>_.
                  seq (lookup blue_storage n) (\<lambda>position. move_arm_to_position position True))) (\<lambda>_.
           seq open_claw (\<lambda>_.
           seq (read_angle SERVO_WRIST_PITCH) (\<lambda>current_wrist.
             case current_wrist of
               None \<Rightarrow> raise TypeError
             | Some wrist \<Rightarrow>
                 seq (smoothly SERVO_WRIST_PITCH (fadd wrist 30)) (\<lambda>_.
                 seq close_claw (\<lambda>_.
                 seq (smoothly SERVO_WRIST_PITCH wrist) (\<lambda>_.
                 ret True)))))))"

text \<open>\<^verbatim>\<open>place_block(row, col)\<close>, with the same read of the wrist angle.\<close>

definition place_block :: "nat \<Rightarrow> nat \<Rightarrow> unit cmd" where
  "place_block row col =
     seq (print_line (PlacingBlockAt row col)) (\<lambda>_.
     seq (lookup board_positions (row, col)) (\<lambda>position.
     seq (move_arm_to_position position True) (\<lambda>_.
     seq (read_angle SERVO_WRIST_PITCH) (\<lambda>current_wrist.
       case current_wrist of
         None \<Rightarrow> raise TypeError
       | Some wrist \<Rightarrow>
           seq (smoothly SERVO_WRIST_PITCH (fadd wrist 30)) (\<lambda>_.
           seq open_claw (\<lambda>_.
           smoothly SERVO_WRIST_PITCH wrist))))))"

definition move_to_home :: "unit cmd" where
  "move_to_home = seq (print_line MovingToHome) (\<lambda>_. move_arm_to_position home_position True)"

section \<open>Perception\<close>

text \<open>
  The camera and the vision service are outside the program. What one call of
  \<^verbatim>\<open>analyze_board_state()\<close> gets from them is a parameter: \<open>Some detected\<close> when
  \<^verbatim>\<open>capture_image\<close> and \<^verbatim>\<open>analyze_board_with_vision_api\<close> deliver an array, None when
  either fails. On success the global board is replaced by the detected array.
\<close>

definition analyze_board_state :: "board option \<Rightarrow> bool cmd" where
  "analyze_board_state seen =
     (case seen of
        Some detected_board \<Rightarrow> (\<lambda>w. (Inr True, w\<lparr>board := detected_board\<rparr>))
      | None \<Rightarrow> seq (print_line FailedToAnalyze) (\<lambda>_. ret False))"

text \<open>
  \<^verbatim>\<open>detect_player_move(prev_board)\<close>: the first cell, in row-major order, that is 0 in
  \<^verbatim>\<open>prev_board\<close> and 1 on the freshly analysed board.
\<close>

definition detect_player_move :: "board \<Rightarrow> board option \<Rightarrow> coords option cmd" where
  "detect_player_move prev_board seen =
     seq (analyze_board_state seen) (\<lambda>ok.
       if \<not> ok then seq (print_line FailedToDetect) (\<lambda>_. ret None)
       else (\<lambda>w.
         case find (\<lambda>(row, col). cell prev_board row col = 0 \<and> cell (board w) row col = 1)
                all_cells of
           Some (row, col) \<Rightarrow>
             seq (print_line (DetectedPlayerMove row col)) (\<lambda>_. ret (Some (row, col))) w
         | None \<Rightarrow> seq (print_line NoValidPlayerMove) (\<lambda>_. ret None) w))"

text \<open>
  \<^verbatim>\<open>wait_for_player_move(prev_board, timeout=60, check_interval=5)\<close>. The wall clock
  decides how often the body of \<^verbatim>\<open>while time.time() - start_time < timeout\<close> runs. The
  model takes the perception results of those runs as a finite list, in order: the loop
  polls once per element until a poll detects a move, and the timeout has elapsed when
  the list is used up.
\<close>

fun wait_loop :: "board \<Rightarrow> board option list \<Rightarrow> coords option cmd" where
  "wait_loop prev_board [] = seq (print_line TimeoutWaiting) (\<lambda>_. ret None)"
| "wait_loop prev_board (seen # later) =
     seq (detect_player_move prev_board seen) (\<lambda>move.
       case move of
         Some mv \<Rightarrow> ret (Some mv)
       | None \<Rightarrow> seq (print_line NoMoveYet) (\<lambda>_. wait_loop prev_board later))"

definition wait_for_player_move :: "board \<Rightarrow> board option list \<Rightarrow> coords option cmd" where
  "wait_for_player_move prev_board polls_before_timeout =
     seq (print_line WaitingForPlayer) (\<lambda>_. wait_loop prev_board polls_before_timeout)"

section \<open>Orchestrator\<close>

text \<open>
  \<^verbatim>\<open>display_board()\<close> looks every cell up in \<^verbatim>\<open>{0: " ", 1: "X", 2: "O"}\<close>, which raises
  KeyError on any other value (the lines printed before the failing cell are left out).
\<close>

definition display_board :: "unit cmd" where
  "display_board w =
     (if list_all (\<lambda>(row, col). cell (board w) row col \<in> {0, 1, 2}) all_cells
      then print_line (BoardDisplayed (board w)) w
      else raise KeyError w)"

definition reset_game :: "world \<Rightarrow> world" where
  "reset_game w = w\<lparr>board := zeros3x3,
                     blue_blocks_used := replicate 5 False,
                     red_blocks_used := replicate 5 False\<rparr>"

text \<open>
  What one run of the body of \<^verbatim>\<open>while not game_over\<close> decides: go round again, leave
  the loop with \<^verbatim>\<open>game_over = True\<close>, or \<^verbatim>\<open>return\<close> at once.
\<close>

datatype flow = Continue | Over | Returned bool

text \<open>What the surroundings supply to one run of the loop body.\<close>

record turn =
  polls :: "board option list"
  shuffled_corners :: "coords list"
  shuffled_edges :: "coords list"

text \<open>
  The \<^verbatim>\<open>else\<close> branch "Robot's turn" of the loop body. The tuple assignment
  \<^verbatim>\<open>robot_row, robot_col = get_robot_move()\<close> raises TypeError on None.
\<close>

definition robot_turn :: "coords list \<Rightarrow> coords list \<Rightarrow> flow cmd" where
  "robot_turn cs es =
     seq (print_line RobotsTurn) (\<lambda>_.
     seq (get_robot_move cs es) (\<lambda>mv.
       case mv of
         None \<Rightarrow> raise TypeError
       | Some (robot_row, robot_col) \<Rightarrow>
           seq (print_line (RobotDecides robot_row robot_col)) (\<lambda>_.
           seq (pick_block True) (\<lambda>picked.
             if picked then
               seq (place_block robot_row robot_col) (\<lambda>_.
               seq move_to_home (\<lambda>_.
               seq (\<lambda>w. (Inr (), w\<lparr>board := set_cell (board w) robot_row robot_col 2\<rparr>)) (\<lambda>_.
               seq display_board (\<lambda>_. (\<lambda>w.
                 if check_win (board w) 2 then seq (print_line RobotWins) (\<lambda>_. ret Over) w
                 else if check_draw (board w) then seq (print_line ItsADraw) (\<lambda>_. ret Over) w
                 else ret Continue w)))))
             else seq (print_line OutOfBlocks) (\<lambda>_. ret Over)))))"

text \<open>The loop body; \<^verbatim>\<open>prev_board = board.copy()\<close> is the board at its start.\<close>

definition game_turn :: "turn \<Rightarrow> flow cmd" where
  "game_turn t w =
     seq (wait_for_player_move (board w) (polls t)) (\<lambda>player_move.
       case player_move of
         None \<Rightarrow> seq (print_line GameAborted) (\<lambda>_. ret (Returned False))
       | Some _ \<Rightarrow>
           seq display_board (\<lambda>_. (\<lambda>w1.
             if check_win (board w1) 1 then seq (print_line PlayerWins) (\<lambda>_. ret Over) w1
             else if check_draw (board w1) then seq (print_line ItsADraw) (\<lambda>_. ret Over) w1
             else robot_turn (shuffled_corners t) (shuffled_edges t) w1))) w"

text \<open>
  The loop of \<^verbatim>\<open>run_game\<close>, from its \<open>n\<close>-th run on; after the loop the function prints
  "Game over!" and returns True.
\<close>

function game_loop :: "(nat \<Rightarrow> turn) \<Rightarrow> nat \<Rightarrow> bool cmd" where
  "game_loop turns n w =
     (case game_turn (turns n) w of
        (Inl e, w') \<Rightarrow> (Inl e, w')
      | (Inr Continue, w') \<Rightarrow> game_loop turns (Suc n) w'
      | (Inr Over, w') \<Rightarrow> seq (print_line GameOver) (\<lambda>_. ret True) w'
      | (Inr (Returned r), w') \<Rightarrow> (Inr r, w'))"
  by pat_completeness auto

text \<open>
  \<^verbatim>\<open>run_game()\<close>. Besides the turns, the surroundings supply the initial board scan and,
  when that board is not empty, whether the answer to "Continue anyway? (y/n)" is a "y".
\<close>

definition run_game :: "board option \<Rightarrow> bool \<Rightarrow> (nat \<Rightarrow> turn) \<Rightarrow> bool cmd" where
  "run_game initial_scan answer_is_y turns w0 =
     seq (print_line StartingGame) (\<lambda>_.
     seq move_to_home (\<lambda>_.
     seq (analyze_board_state initial_scan) (\<lambda>ok.
       if \<not> ok then seq (print_line FailedInitialScan) (\<lambda>_. ret False)
       else (\<lambda>w.
         if sum_list (map sum_list (board w)) > 0 then
           seq (print_line BoardNotEmptyWarning) (\<lambda>_.
           seq display_board (\<lambda>_.
             if \<not> answer_is_y then ret False
             else seq (print_line WaitingFirstMove) (\<lambda>_. game_loop turns 0))) w
         else seq (print_line WaitingFirstMove) (\<lambda>_. game_loop turns 0) w))))
     (reset_game w0)"

section \<open>Terms of the specification\<close>

text \<open>
  A state at the start of the module: an empty board, five unused blocks per side, no
  servo angle readable, nothing printed.
\<close>

definition start_world :: world where
  "start_world = \<lparr>board = zeros3x3, blue_blocks_used = replicate 5 False,
                   red_blocks_used = replicate 5 False, servo = (\<lambda>_. ReadFails), printed = []\<rparr>"

text \<open>
  The specification's reading of a win: one of the 3 rows, 3 columns or 2 diagonals is
  fully occupied by the side.
\<close>

definition win_lines :: "coords list list" where
  "win_lines =
     [[(0, 0), (0, 1), (0, 2)], [(1, 0), (1, 1), (1, 2)], [(2, 0), (2, 1), (2, 2)],
      [(0, 0), (1, 0), (2, 0)], [(0, 1), (1, 1), (2, 1)], [(0, 2), (1, 2), (2, 2)],
      [(0, 0), (1, 1), (2, 2)], [(0, 2), (1, 1), (2, 0)]]"

definition line_occupied :: "board \<Rightarrow> int \<Rightarrow> coords list \<Rightarrow> bool" where
  "line_occupied b side line = list_all (\<lambda>(row, col). cell b row col = side) line"

definition some_line_occupied :: "board \<Rightarrow> int \<Rightarrow> bool" where
  "some_line_occupied b side = list_ex (line_occupied b side) win_lines"

text \<open>No Empty cell remains on the board.\<close>

definition no_empty_cell :: "board \<Rightarrow> bool" where
  "no_empty_cell b = list_all (\<lambda>(row, col). cell b row col \<noteq> 0) all_cells"

text \<open>
  The first cell in row-major order that is Empty and that, set to the mark, makes
  \<open>check_win\<close> true for the mark.
\<close>

definition first_winning_cell :: "board \<Rightarrow> int \<Rightarrow> coords option" where
  "first_winning_cell b mark =
     find (\<lambda>(row, col). cell b row col = 0 \<and> check_win (set_cell b row col mark) mark) all_cells"

text \<open>
  The results of \<open>k\<close> successive calls of \<^verbatim>\<open>get_next_available_block\<close> for one side, in
  order, and the state after the last call.
\<close>

fun allocate_times :: "nat \<Rightarrow> bool \<Rightarrow> world \<Rightarrow> (error + nat option) list \<times> world" where
  "allocate_times 0 is_robot_block w = ([], w)"
| "allocate_times (Suc k) is_robot_block w =
     (case get_next_available_block is_robot_block w of
        (r, w1) \<Rightarrow> (case allocate_times k is_robot_block w1 of (rs, w2) \<Rightarrow> (r # rs, w2)))"

text \<open>
  No slot returns to unused: the two lists have the same slots, and a slot that is used
  before is used after.
\<close>

definition used_stay_used :: "bool list \<Rightarrow> bool list \<Rightarrow> bool" where
  "used_stay_used before after = list_all2 (\<lambda>used used'. used \<longrightarrow> used') before after"

text \<open>
  A poll reports no Empty-to-PlayerMark change relative to the snapshot: the analysis
  failed, or no cell that is 0 in the snapshot is 1 on the board it delivered.
\<close>

definition reports_no_player_move :: "board \<Rightarrow> board option \<Rightarrow> bool" where
  "reports_no_player_move snapshot seen =
     (case seen of
        None \<Rightarrow> True
      | Some b \<Rightarrow> \<not> list_ex (\<lambda>(row, col). cell snapshot row col = 0 \<and> cell b row col = 1) all_cells)"

text \<open>The perception adapter delivers 3x3 grids.\<close>

definition seen_3x3 :: "board option \<Rightarrow> bool" where
  "seen_3x3 seen = (case seen of None \<Rightarrow> True | Some b \<Rightarrow> shape3x3 b)"

text \<open>What a wait that detects nothing prints after its first line, poll by poll.\<close>

fun wait_messages :: "board option list \<Rightarrow> event list" where
  "wait_messages [] = [TimeoutWaiting]"
| "wait_messages (None # later) = [FailedToAnalyze, FailedToDetect, NoMoveYet] @ wait_messages later"
| "wait_messages (Some b # later) = [NoValidPlayerMove, NoMoveYet] @ wait_messages later"

text \<open>The board after the polls: the last array that an analysis delivered.\<close>

fun last_seen :: "board \<Rightarrow> board option list \<Rightarrow> board" where
  "last_seen b [] = b"
| "last_seen b (None # later) = last_seen b later"
| "last_seen b (Some b' # later) = last_seen b' later"

text \<open>
  The printed lines that belong to the robot's turn: move selection, picking, placing
  and every arm or claw motion.
\<close>

fun robot_action :: "event \<Rightarrow> bool" where
  "robot_action RobotsTurn = True"
| "robot_action (RobotDecides r c) = True"
| "robot_action NoMoreBlocksWarning = True"
| "robot_action NoBlocksError = True"
| "robot_action (PickingUpRed n) = True"
| "robot_action (PickingUpBlue n) = True"
| "robot_action (PlacingBlockAt r c) = True"
| "robot_action (MovingArmTo p) = True"
| "robot_action ArmInPosition = True"
| "robot_action OpeningClaw = True"
| "robot_action ClosingClaw = True"
| "robot_action MovingToHome = True"
| "robot_action OutOfBlocks = True"
| "robot_action RobotWins = True"
| "robot_action _ = False"

text \<open>
  A scenario for the exhausted inventory: every red block is used, and the one poll of
  the turn shows the player's mark in the centre of an otherwise empty board.
\<close>

definition all_red_used :: world where
  "all_red_used = start_world\<lparr>red_blocks_used := [True, True, True, True, True]\<rparr>"

definition centre_taken :: board where
  "centre_taken = [[0, 0, 0], [0, 1, 0], [0, 0, 0]]"

definition centre_turns :: "nat \<Rightarrow> turn" where
  "centre_turns = (\<lambda>_. \<lparr>polls = [Some centre_taken],
                         shuffled_corners = [(2, 2), (0, 0), (0, 2), (2, 0)],
                         shuffled_edges = edges\<rparr>)"

definition after_centre_move :: world where
  "after_centre_move =
     all_red_used\<lparr>board := centre_taken, printed := [WaitingForPlayer, DetectedPlayerMove 1 1]\<rparr>"

text \<open>
  The angle that \<open>move_servo_smoothly\<close> commands last with its 10 default steps: the last
  value of \<^verbatim>\<open>current_angle + step_size * (step + 1)\<close>, computed in floats.
\<close>

definition smooth_end :: "rat \<Rightarrow> rat \<Rightarrow> rat" where
  "smooth_end current target = fadd current (fmul (fdiv (fsub target current) 10) 10)"

text \<open>A state in which the base servo stands at the Python float 0.1.\<close>

definition base_at_tenth :: world where
  "base_at_tenth = start_world\<lparr>servo := (servo start_world)(SERVO_BASE := Angle (to_double (1 / 10)))\<rparr>"

text \<open>
  The move to the home position reads the five arm servos; it returns when none of the
  reads returns None.
\<close>

definition homing_reads_angles :: "world \<Rightarrow> bool" where
  "homing_reads_angles w =
     list_all (\<lambda>n. servo w n \<noteq> NoAngle)
       [SERVO_BASE, SERVO_SHOULDER, SERVO_ELBOW, SERVO_WRIST_PITCH, SERVO_WRIST_ROLL]"

text \<open>
  The state in which \<open>run_game\<close>, started in \<open>w0\<close>, enters its loop when the initial scan
  delivers the board \<open>seen\<close>: the game reset, the arm moved home, the board scanned.
\<close>

definition at_first_wait :: "board \<Rightarrow> world \<Rightarrow> world" where
  "at_first_wait seen w0 =
     (snd (move_to_home ((reset_game w0)\<lparr>printed := printed w0 @ [StartingGame]\<rparr>)))
       \<lparr>board := seen,
        printed := printed w0 @ [StartingGame, MovingToHome, MovingArmTo home_position,
                                 ArmInPosition, WaitingFirstMove]\<rparr>"

section \<open>Predicates used in the proofs\<close>

text \<open>
  How an operation treats the block lists: the number of unused red blocks, an operation
  that leaves both lists as they are, one that does not raise the number of unused red
  blocks, one that lowers it whenever its result satisfies \<open>P\<close>, and one under which used
  slots stay used.
\<close>

definition red_unused :: "world \<Rightarrow> nat" where
  "red_unused w = length (filter Not (red_blocks_used w))"

definition keeps_blocks :: "'a cmd \<Rightarrow> bool" where
  "keeps_blocks c = (\<forall>w. blue_blocks_used (snd (c w)) = blue_blocks_used w \<and>
                          red_blocks_used (snd (c w)) = red_blocks_used w)"

definition red_le :: "'a cmd \<Rightarrow> bool" where
  "red_le c = (\<forall>w. red_unused (snd (c w)) \<le> red_unused w)"

definition red_lt_when :: "'a cmd \<Rightarrow> ('a \<Rightarrow> bool) \<Rightarrow> bool" where
  "red_lt_when c P = (\<forall>w x w'. c w = (Inr x, w') \<longrightarrow> P x \<longrightarrow> red_unused w' < red_unused w)"

definition blocks_mono :: "'a cmd \<Rightarrow> bool" where
  "blocks_mono c =
     (\<forall>w side. used_stay_used (blocks_used side w) (blocks_used side (snd (c w))))"

section \<open>Termination of the game loop\<close>

text \<open>
  The loop goes round again only after \<^verbatim>\<open>pick_block(True)\<close> has returned True, and that
  call has marked one more entry of \<^verbatim>\<open>red_blocks_used\<close>; nothing else in the loop body
  writes the block lists. So the number of unused red blocks is a measure for the loop.
\<close>

lemma seq_InrE:
  assumes "seq m f w = (Inr y, w')"
  obtains x w1 where "m w = (Inr x, w1)" and "f x w1 = (Inr y, w')"
  using assms by (auto simp: seq_def split: prod.splits sum.splits)

lemma keeps_blocksD:
  "keeps_blocks c \<Longrightarrow> c w = (r, w') \<Longrightarrow>
     blue_blocks_used w' = blue_blocks_used w \<and> red_blocks_used w' = red_blocks_used w"
  unfolding keeps_blocks_def by (metis snd_conv)

lemma keeps_blocks_redD:
  "keeps_blocks c \<Longrightarrow> c w = (r, w') \<Longrightarrow> red_blocks_used w' = red_blocks_used w"
  by (simp add: keeps_blocksD)

lemma keeps_blocks_ret: "keeps_blocks (ret x)"
  by (simp add: keeps_blocks_def ret_def)

lemma keeps_blocks_raise: "keeps_blocks (raise e)"
  by (simp add: keeps_blocks_def raise_def)

lemma keeps_blocks_print_line: "keeps_blocks (print_line e)"
  by (simp add: keeps_blocks_def print_line_def)

lemma keeps_blocks_seq: "keeps_blocks m \<Longrightarrow> (\<And>x. keeps_blocks (f x)) \<Longrightarrow> keeps_blocks (seq m f)"
  unfolding keeps_blocks_def seq_def
  by (auto split: prod.splits sum.splits) (metis snd_conv)+

lemma fold_set_angle_blocks:
  "blue_blocks_used (fold (\<lambda>step. set_angle n (f step)) steps w) = blue_blocks_used w \<and>
   red_blocks_used (fold (\<lambda>step. set_angle n (f step)) steps w) = red_blocks_used w"
  by (induction steps arbitrary: w) (simp_all add: set_angle_def)

lemma keeps_blocks_move_servo_smoothly: "keeps_blocks (move_servo_smoothly n a c k)"
  by (simp add: keeps_blocks_def move_servo_smoothly_def Let_def fold_set_angle_blocks
      split: option.splits reading.splits)

lemma keeps_blocks_smoothly: "keeps_blocks (smoothly n a)"
  by (simp add: smoothly_def keeps_blocks_move_servo_smoothly)

lemmas keeps_blocks_basic =
  keeps_blocks_seq keeps_blocks_ret keeps_blocks_raise keeps_blocks_print_line keeps_blocks_smoothly

lemma keeps_blocks_direct:
  "keeps_blocks (\<lambda>w. (Inr x, set_angle a1 v1 (set_angle a2 v2 (set_angle a3 v3
                     (set_angle a4 v4 (set_angle a5 v5 w))))))"
  by (simp add: keeps_blocks_def set_angle_def)

lemma keeps_blocks_move_arm_to_position: "keeps_blocks (move_arm_to_position p smooth)"
  unfolding move_arm_to_position_def
  by (cases smooth) (simp_all add: keeps_blocks_basic keeps_blocks_direct)

lemma keeps_blocks_open_claw: "keeps_blocks open_claw"
  unfolding open_claw_def by (intro keeps_blocks_basic)

lemma keeps_blocks_close_claw: "keeps_blocks close_claw"
  unfolding close_claw_def by (intro keeps_blocks_basic)

lemma keeps_blocks_read_angle: "keeps_blocks (read_angle n)"
  by (simp add: keeps_blocks_def read_angle_def split: reading.splits)

lemma keeps_blocks_case_option:
  "keeps_blocks a \<Longrightarrow> (\<And>x. keeps_blocks (f x)) \<Longrightarrow>
     keeps_blocks (case opt of None \<Rightarrow> a | Some x \<Rightarrow> f x)"
  by (cases opt) simp_all

lemma keeps_blocks_lookup: "keeps_blocks (lookup t k)"
  by (simp add: lookup_def keeps_blocks_basic split: option.splits)

lemmas keeps_blocks_motion =
  keeps_blocks_basic keeps_blocks_move_arm_to_position keeps_blocks_open_claw
  keeps_blocks_close_claw keeps_blocks_read_angle keeps_blocks_lookup keeps_blocks_case_option

lemma keeps_blocks_place_block: "keeps_blocks (place_block r c)"
  unfolding place_block_def by (intro keeps_blocks_motion)

lemma keeps_blocks_move_to_home: "keeps_blocks move_to_home"
  unfolding move_to_home_def by (intro keeps_blocks_motion)

lemma keeps_blocks_display_board: "keeps_blocks display_board"
  by (simp add: keeps_blocks_def display_board_def print_line_def raise_def)

lemma keeps_blocks_get_robot_move: "keeps_blocks (get_robot_move cs es)"
  by (simp add: keeps_blocks_def get_robot_move_def split: prod.splits)

lemma keeps_blocks_analyze_board_state: "keeps_blocks (analyze_board_state seen)"
proof (cases seen)
  case None
  then show ?thesis by (simp add: analyze_board_state_def keeps_blocks_basic)
next
  case (Some b)
  then show ?thesis by (simp add: analyze_board_state_def keeps_blocks_def)
qed

lemma keeps_blocks_found:
  "keeps_blocks (\<lambda>w. case find (P w) cells of
       Some (row, col) \<Rightarrow> seq (print_line (e row col)) (\<lambda>_. ret (Some (row, col))) w
     | None \<Rightarrow> seq (print_line e') (\<lambda>_. ret None) w)"
  by (simp add: keeps_blocks_def seq_def print_line_def ret_def split: option.splits prod.splits)

lemma keeps_blocks_detect_player_move: "keeps_blocks (detect_player_move prev seen)"
  unfolding detect_player_move_def
  by (intro keeps_blocks_seq keeps_blocks_analyze_board_state)
     (simp add: keeps_blocks_basic keeps_blocks_found)

lemma keeps_blocks_wait_loop: "keeps_blocks (wait_loop prev ps)"
proof (induction ps)
  case Nil
  show ?case by (simp add: keeps_blocks_basic)
next
  case (Cons seen later)
  have "keeps_blocks (case move of Some mv \<Rightarrow> ret (Some mv)
          | None \<Rightarrow> seq (print_line NoMoveYet) (\<lambda>_. wait_loop prev later))" for move
    by (cases move) (simp_all add: keeps_blocks_basic Cons.IH)
  then show ?case
    by (simp add: keeps_blocks_seq keeps_blocks_detect_player_move)
qed

lemma keeps_blocks_wait_for_player_move: "keeps_blocks (wait_for_player_move prev ps)"
  unfolding wait_for_player_move_def
  by (intro keeps_blocks_basic keeps_blocks_wait_loop)

lemma filter_Not_update:
  "k < length bs \<Longrightarrow> \<not> bs ! k \<Longrightarrow> length (filter Not (bs[k := True])) < length (filter Not bs)"
proof (induction bs arbitrary: k)
  case Nil
  then show ?case by simp
next
  case (Cons b bs)
  then show ?case by (cases k) auto
qed

lemma first_unused_Some:
  "first_unused i bs = Some j \<Longrightarrow> i \<le> j \<and> j - i < length bs \<and> \<not> bs ! (j - i)"
proof (induction bs arbitrary: i)
  case Nil
  then show ?case by simp
next
  case (Cons b bs)
  show ?case
  proof (cases b)
    case True
    with Cons.prems have "first_unused (Suc i) bs = Some j" by simp
    from Cons.IH[OF this] show ?thesis by (auto simp: Suc_diff_le)
  next
    case False
    with Cons.prems show ?thesis by simp
  qed
qed

lemma get_next_red_decreases:
  assumes "get_next_available_block True w = (Inr (Some n), w')"
  shows "red_unused w' < red_unused w"
proof -
  from assms obtain i where i: "first_unused 0 (red_blocks_used w) = Some i"
    and w': "w' = w\<lparr>red_blocks_used := (red_blocks_used w)[i := True]\<rparr>"
    by (auto simp: get_next_available_block_def blocks_used_def store_blocks_used_def
        seq_def print_line_def ret_def split: option.splits)
  from first_unused_Some[OF i] show ?thesis
    by (simp add: w' red_unused_def filter_Not_update)
qed

lemma red_le_keeps: "keeps_blocks c \<Longrightarrow> red_le c"
  by (simp add: red_le_def keeps_blocks_def red_unused_def)

lemma red_lt_when_seq_later:
  assumes "red_le m" and "\<And>x. red_lt_when (f x) P"
  shows "red_lt_when (seq m f) P"
  unfolding red_lt_when_def
proof (intro allI impI)
  fix w y w' assume "seq m f w = (Inr y, w')" and "P y"
  then obtain x w1 where m: "m w = (Inr x, w1)" and f: "f x w1 = (Inr y, w')"
    by (auto elim: seq_InrE)
  from assms(1) m have "red_unused w1 \<le> red_unused w"
    unfolding red_le_def by (metis snd_conv)
  moreover from assms(2) f \<open>P y\<close> have "red_unused w' < red_unused w1"
    unfolding red_lt_when_def by blast
  ultimately show "red_unused w' < red_unused w" by simp
qed

lemma red_lt_when_seq_first:
  assumes "red_lt_when m P'" and "\<And>x. red_le (f x)"
    and "\<And>x w y w'. \<not> P' x \<Longrightarrow> f x w = (Inr y, w') \<Longrightarrow> \<not> P y"
  shows "red_lt_when (seq m f) P"
  unfolding red_lt_when_def
proof (intro allI impI)
  fix w y w' assume "seq m f w = (Inr y, w')" and "P y"
  then obtain x w1 where m: "m w = (Inr x, w1)" and f: "f x w1 = (Inr y, w')"
    by (auto elim: seq_InrE)
  from assms(2) f have le: "red_unused w' \<le> red_unused w1"
    unfolding red_le_def by (metis snd_conv)
  from assms(3) f \<open>P y\<close> have "P' x" by blast
  with assms(1) m have "red_unused w1 < red_unused w"
    unfolding red_lt_when_def by blast
  with le show "red_unused w' < red_unused w" by simp
qed

lemma pick_block_red_decreases: "red_lt_when (pick_block True) (\<lambda>picked. picked)"
  unfolding red_lt_when_def
proof (intro allI impI)
  fix w x w' assume "pick_block True w = (Inr x, w')" and x
  then have "pick_block True w = (Inr True, w')" by simp
  then obtain bn w1 where g: "get_next_available_block True w = (Inr bn, w1)"
    and rest: "(case bn of
         None \<Rightarrow> seq (print_line NoBlocksError) (\<lambda>_. ret False)
       | Some n \<Rightarrow>
           seq (seq (print_line (PickingUpRed n)) (\<lambda>_.
                seq (lookup red_storage n) (\<lambda>position. move_arm_to_position position True))) (\<lambda>_.
           seq open_claw (\<lambda>_.
           seq (read_angle SERVO_WRIST_PITCH) (\<lambda>current_wrist.
             case current_wrist of
               None \<Rightarrow> raise TypeError
             | Some wrist \<Rightarrow>
                 seq (smoothly SERVO_WRIST_PITCH (fadd wrist 30)) (\<lambda>_.
                 seq close_claw (\<lambda>_.
                 seq (smoothly SERVO_WRIST_PITCH wrist) (\<lambda>_.
                 ret True))))))) w1 = (Inr True, w')"
    unfolding pick_block_def if_True by (rule seq_InrE)
  show "red_unused w' < red_unused w"
  proof (cases bn)
    case None
    with rest show ?thesis by (simp add: seq_def print_line_def ret_def)
  next
    case (Some n)
    with rest have "red_blocks_used w' = red_blocks_used w1"
      by simp (erule keeps_blocks_redD[rotated], intro keeps_blocks_motion)
    moreover from g Some have "red_unused w1 < red_unused w"
      by (simp add: get_next_red_decreases)
    ultimately show ?thesis by (simp add: red_unused_def)
  qed
qed

lemma keeps_blocks_commit: "keeps_blocks (\<lambda>w. (Inr x, w\<lparr>board := f w\<rparr>))"
  by (simp add: keeps_blocks_def)

lemma keeps_blocks_robot_verdict:
  "keeps_blocks (\<lambda>w. if check_win (board w) 2 then seq (print_line RobotWins) (\<lambda>_. ret Over) w
                  else if check_draw (board w) then seq (print_line ItsADraw) (\<lambda>_. ret Over) w
                  else ret Continue w)"
  by (simp add: keeps_blocks_def seq_def print_line_def ret_def)

lemma after_pick_red_decreases:
  "red_lt_when
     (seq (pick_block True) (\<lambda>picked.
        if picked then
          seq (place_block robot_row robot_col) (\<lambda>_.
          seq move_to_home (\<lambda>_.
          seq (\<lambda>w. (Inr (), w\<lparr>board := set_cell (board w) robot_row robot_col 2\<rparr>)) (\<lambda>_.
          seq display_board (\<lambda>_. (\<lambda>w.
            if check_win (board w) 2 then seq (print_line RobotWins) (\<lambda>_. ret Over) w
            else if check_draw (board w) then seq (print_line ItsADraw) (\<lambda>_. ret Over) w
            else ret Continue w)))))
        else seq (print_line OutOfBlocks) (\<lambda>_. ret Over)))
     (\<lambda>x. x = Continue)"
  apply (rule red_lt_when_seq_first[OF pick_block_red_decreases])
  subgoal for picked
    by (cases picked)
       (simp_all add: red_le_keeps keeps_blocks_basic keeps_blocks_place_block keeps_blocks_move_to_home
          keeps_blocks_commit keeps_blocks_display_board keeps_blocks_robot_verdict)
  subgoal for picked w y w'
    by (auto simp: seq_def print_line_def ret_def)
  done

lemma robot_turn_red_decreases: "red_lt_when (robot_turn cs es) (\<lambda>x. x = Continue)"
  unfolding robot_turn_def
  apply (intro red_lt_when_seq_later red_le_keeps keeps_blocks_print_line keeps_blocks_get_robot_move)
  subgoal for u mv
  proof (cases mv)
    case None
    then show ?thesis by (simp add: red_lt_when_def raise_def)
  next
    case (Some rc)
    then show ?thesis
      by (cases rc)
         (simp add: red_lt_when_seq_later red_le_keeps keeps_blocks_print_line
            after_pick_red_decreases)
  qed
  done

lemma after_display_red_decreases:
  "red_lt_when (\<lambda>w1.
       if check_win (board w1) 1 then seq (print_line PlayerWins) (\<lambda>_. ret Over) w1
       else if check_draw (board w1) then seq (print_line ItsADraw) (\<lambda>_. ret Over) w1
       else robot_turn cs es w1) (\<lambda>x. x = Continue)"
  using robot_turn_red_decreases[of cs es]
  unfolding red_lt_when_def
  by (auto simp: seq_def print_line_def ret_def split: if_splits)

lemma game_turn_red_decreases:
  assumes "game_turn t w = (Inr Continue, w')"
  shows "red_unused w' < red_unused w"
proof -
  have "red_lt_when
     (seq (wait_for_player_move (board w) (polls t)) (\<lambda>player_move.
       case player_move of
         None \<Rightarrow> seq (print_line GameAborted) (\<lambda>_. ret (Returned False))
       | Some _ \<Rightarrow>
           seq display_board (\<lambda>_. (\<lambda>w1.
             if check_win (board w1) 1 then seq (print_line PlayerWins) (\<lambda>_. ret Over) w1
             else if check_draw (board w1) then seq (print_line ItsADraw) (\<lambda>_. ret Over) w1
             else robot_turn (shuffled_corners t) (shuffled_edges t) w1))))
     (\<lambda>x. x = Continue)"
    apply (intro red_lt_when_seq_later red_le_keeps keeps_blocks_wait_for_player_move)
    subgoal for player_move
    proof (cases player_move)
      case None
      then show ?thesis by (simp add: red_lt_when_def seq_def print_line_def ret_def)
    next
      case (Some mv)
      then show ?thesis
        by (simp add: red_lt_when_seq_later red_le_keeps keeps_blocks_display_board
            after_display_red_decreases)
    qed
    done
  with assms show ?thesis
    unfolding red_lt_when_def game_turn_def by blast
qed

termination game_loop
  by (relation "measure (\<lambda>(turns, n, w). red_unused w)")
     (auto dest: game_turn_red_decreases[OF sym])

declare game_loop.simps [simp del]

section \<open>Properties of the rule engine\<close>

lemma upt3: "[0..<3] = [0, 1, 2]"
  by (simp add: upt_rec)

lemma zeros3x3_eq: "zeros3x3 = [[0, 0, 0], [0, 0, 0], [0, 0, 0]]"
  by (simp add: zeros3x3_def numeral_3_eq_3)

lemma all_cells_eq:
  "all_cells = [(0, 0), (0, 1), (0, 2), (1, 0), (1, 1), (1, 2), (2, 0), (2, 1), (2, 2)]"
  by (simp add: all_cells_def upt3)

lemma shape3x3E:
  assumes "shape3x3 b"
  obtains a0 a1 a2 a3 a4 a5 a6 a7 a8
  where "b = [[a0, a1, a2], [a3, a4, a5], [a6, a7, a8]]"
  using assms unfolding shape3x3_def
  by (auto simp: length_Suc_conv numeral_3_eq_3)

lemma check_win_lines: "shape3x3 b \<Longrightarrow> check_win b side = some_line_occupied b side"
  by (erule shape3x3E)
     (auto simp: check_win_def some_line_occupied_def line_occupied_def win_lines_def cell_def upt3)

lemma check_draw_cells: "shape3x3 b \<Longrightarrow> check_draw b = no_empty_cell b"
  by (erule shape3x3E)
     (auto simp: check_draw_def no_empty_cell_def all_cells_eq cell_def)

lemma check_win_zeros: "side \<noteq> 0 \<Longrightarrow> \<not> check_win zeros3x3 side"
  by (simp add: check_win_def zeros3x3_def cell_def upt3 numeral_3_eq_3)

text \<open>
  C3. On every 3x3 board and for every side, \<open>check_win\<close> is true exactly when one of
  the 3 rows, 3 columns or 2 diagonals is uniformly occupied by the side (the side may
  be any value, in particular the player's 1 and the robot's 2); on the all-empty board
  it is false for both sides.
\<close>

theorem check_win_iff_line_occupied:
  "(shape3x3 b \<longrightarrow> check_win b side = some_line_occupied b side) \<and>
   \<not> check_win zeros3x3 1 \<and> \<not> check_win zeros3x3 2"
  by (simp add: check_win_lines check_win_zeros)

theorem check_win_iff_line_occupied_witness:
  "shape3x3 [[1, 2, 0], [2, 1, 0], [0, 0, 1]] \<and>
   check_win [[1, 2, 0], [2, 1, 0], [0, 0, 1]] 1 \<and>
   some_line_occupied [[1, 2, 0], [2, 1, 0], [0, 0, 1]] 1 \<and>
   \<not> check_win [[1, 2, 0], [2, 1, 0], [0, 0, 1]] 2 \<and>
   \<not> some_line_occupied [[1, 2, 0], [2, 1, 0], [0, 0, 1]] 2"
proof -
  have h: "shape3x3 [[1, 2, 0], [2, 1, 0], [0, 0, 1]]"
    by (simp add: shape3x3_def)
  have s1: "some_line_occupied [[1, 2, 0], [2, 1, 0], [0, 0, 1]] 1"
    by (simp add: some_line_occupied_def line_occupied_def win_lines_def cell_def)
  have s2: "\<not> some_line_occupied [[1, 2, 0], [2, 1, 0], [0, 0, 1]] 2"
    by (simp add: some_line_occupied_def line_occupied_def win_lines_def cell_def)
  show ?thesis
    using h s1 s2
      check_win_iff_line_occupied [of "[[1, 2, 0], [2, 1, 0], [0, 0, 1]]" 1]
      check_win_iff_line_occupied [of "[[1, 2, 0], [2, 1, 0], [0, 0, 1]]" 2]
    by simp
qed

text \<open>
  C8. On every 3x3 board \<open>check_draw\<close> is true exactly when no Empty cell remains, so a
  board with an Empty cell is never reported as a draw. The function does not look at
  wins: the full board below, on which the player has won, is reported as a draw.
\<close>

theorem check_draw_iff_no_empty_cell:
  "(shape3x3 b \<longrightarrow> check_draw b = no_empty_cell b) \<and>
   (check_draw [[1, 1, 1], [2, 2, 1], [1, 2, 2]] \<and> check_win [[1, 1, 1], [2, 2, 1], [1, 2, 2]] 1)"
  by (simp add: check_draw_cells) (simp add: check_draw_def check_win_def upt3)

theorem check_draw_iff_no_empty_cell_witness:
  "shape3x3 [[1, 2, 1], [2, 0, 2], [2, 1, 2]] \<and>
   \<not> check_draw [[1, 2, 1], [2, 0, 2], [2, 1, 2]] \<and>
   \<not> no_empty_cell [[1, 2, 1], [2, 0, 2], [2, 1, 2]]"
proof -
  have h: "shape3x3 [[1, 2, 1], [2, 0, 2], [2, 1, 2]]"
    by (simp add: shape3x3_def)
  have n: "\<not> no_empty_cell [[1, 2, 1], [2, 0, 2], [2, 1, 2]]"
    by (simp add: no_empty_cell_def all_cells_eq cell_def)
  show ?thesis
    using h n check_draw_iff_no_empty_cell [of "[[1, 2, 1], [2, 0, 2], [2, 1, 2]]"]
    by simp
qed

subsection \<open>Move selection\<close>

lemma row_restore: "row ! c = (0::int) \<Longrightarrow> row[c := 0] = row"
  by (cases "c < length row") (simp_all add: list_update_same_conv list_update_beyond)

lemma set_cell_restore: "cell b r c = 0 \<Longrightarrow> set_cell (set_cell b r c m) r c 0 = b"
  unfolding cell_def set_cell_def
  by (cases "r < length b") (simp_all add: row_restore list_update_beyond)

text \<open>
  The lookahead loop finds the first Empty cell whose trial placement wins, and hands the
  array back as it got it: each trial placement is undone by the write of 0.
\<close>

lemma try_cells_find:
  "try_cells mark cells b =
     (find (\<lambda>(row, col). cell b row col = 0 \<and> check_win (set_cell b row col mark) mark) cells, b)"
  by (induction mark cells b rule: try_cells.induct) (simp_all add: set_cell_restore Let_def)

lemma robot_move_board: "snd (robot_move cs es b) = b"
  by (simp add: robot_move_def try_cells_find split: option.splits)

lemma get_robot_move_state: "snd (get_robot_move cs es w) = w"
  using robot_move_board[of cs es "board w"]
  by (auto simp: get_robot_move_def split: prod.splits)

lemma get_robot_move_fst:
  "fst (get_robot_move cs es w) = Inr (fst (robot_move cs es (board w)))"
  by (simp add: get_robot_move_def split: prod.splits)

lemma find_cell_empty:
  assumes "find (\<lambda>(row, col). cell b row col = 0 \<and> Q row col) cells = Some (r, c)"
  shows "(r, c) \<in> set cells \<and> cell b r c = 0"
proof -
  from assms obtain i where "i < length cells" and "cells ! i = (r, c)"
    and "cell b r c = 0 \<and> Q r c"
    unfolding find_Some_iff by auto
  then show ?thesis by (auto simp: in_set_conv_nth)
qed

lemma first_empty_Some:
  "first_empty b cells = Some (r, c) \<Longrightarrow> (r, c) \<in> set cells \<and> cell b r c = 0"
  using find_cell_empty[of b "\<lambda>_ _. True" cells r c] by (simp add: first_empty_def)

lemma first_empty_None:
  "first_empty b cells = None \<Longrightarrow> (r, c) \<in> set cells \<Longrightarrow> cell b r c \<noteq> 0"
  by (auto simp: first_empty_def find_None_iff)

lemma less3: "(n::nat) < 3 \<longleftrightarrow> n = 0 \<or> n = 1 \<or> n = 2"
  by arith

lemma in_all_cells: "(r, c) \<in> set all_cells \<longleftrightarrow> r < 3 \<and> c < 3"
  unfolding all_cells_eq less3 by auto

lemma cells_cover:
  "r < 3 \<Longrightarrow> c < 3 \<Longrightarrow> (r, c) = (1, 1) \<or> (r, c) \<in> set corners \<or> (r, c) \<in> set edges"
  unfolding corners_def edges_def less3 by auto

lemma corners_in_range: "(r, c) \<in> set corners \<Longrightarrow> r < 3 \<and> c < 3"
  by (auto simp: corners_def)

lemma edges_in_range: "(r, c) \<in> set edges \<Longrightarrow> r < 3 \<and> c < 3"
  by (auto simp: edges_def)

lemma robot_move_cases:
  assumes "fst (robot_move cs es b) = Some mv"
  shows "first_winning_cell b 2 = Some mv \<or> first_winning_cell b 1 = Some mv \<or>
         (mv = (1, 1) \<and> cell b 1 1 = 0) \<or> first_empty b cs = Some mv \<or>
         first_empty b es = Some mv"
  using assms unfolding robot_move_def try_cells_find first_winning_cell_def
  by (simp split: option.splits if_splits)

lemma robot_move_Some:
  assumes "set cs = set corners" and "set es = set edges"
    and "fst (robot_move cs es b) = Some (r, c)"
  shows "r < 3 \<and> c < 3 \<and> cell b r c = 0"
proof -
  from robot_move_cases[OF assms(3)]
  consider (look) mark where "first_winning_cell b mark = Some (r, c)"
    | (center) "(r, c) = (1, 1)" "cell b 1 1 = 0"
    | (corner) "first_empty b cs = Some (r, c)"
    | (edge) "first_empty b es = Some (r, c)"
    by blast
  then show ?thesis
  proof cases
    case look
    then show ?thesis
      unfolding first_winning_cell_def
      by (auto dest!: find_cell_empty simp: in_all_cells)
  next
    case center
    then show ?thesis by simp
  next
    case corner
    from first_empty_Some[OF this] show ?thesis
      by (auto simp: assms(1) dest: corners_in_range)
  next
    case edge
    from first_empty_Some[OF this] show ?thesis
      by (auto simp: assms(2) dest: edges_in_range)
  qed
qed

lemma robot_move_None:
  assumes "set cs = set corners" and "set es = set edges"
    and "fst (robot_move cs es b) = None" and "r < 3" and "c < 3"
  shows "cell b r c \<noteq> 0"
proof -
  from assms(3) have center: "cell b 1 1 \<noteq> 0"
    and cn: "first_empty b cs = None" and en: "first_empty b es = None"
    unfolding robot_move_def try_cells_find
    by (auto split: option.splits if_splits)
  from cells_cover[OF assms(4,5)] show ?thesis
    using center first_empty_None[OF cn] first_empty_None[OF en] assms(1,2)
    by auto
qed

text \<open>
  C1 fails as stated. On the board [[1,1,0],[2,2,0],[0,0,0]] the robot has an immediate
  win at (1, 2), which completes its own row 1, and the win tier comes before the block
  tier: \<open>get_robot_move\<close> does not return the blocking cell (0, 2).
\<close>

theorem block_scenario_counterexample:
  "fst (get_robot_move corners edges (start_world\<lparr>board := [[1, 1, 0], [2, 2, 0], [0, 0, 0]]\<rparr>))
     \<noteq> Inr (Some (0, 2))"
  by (simp add: get_robot_move_fst robot_move_def try_cells_find
      all_cells_eq cell_def set_cell_def check_win_def upt3)

text \<open>
  C1, amended. On the board [[1,1,0],[2,2,0],[0,0,0]], whatever the shuffles and the rest
  of the state, \<open>get_robot_move\<close> returns exactly (1, 2), the robot's immediate win in
  row 1.
\<close>

theorem block_scenario_returns_win:
  "fst (get_robot_move cs es (w\<lparr>board := [[1, 1, 0], [2, 2, 0], [0, 0, 0]]\<rparr>)) = Inr (Some (1, 2))"
  by (simp add: get_robot_move_fst robot_move_def try_cells_find
      all_cells_eq cell_def set_cell_def check_win_def upt3)

text \<open>
  C2. On every 3x3 board \<open>get_robot_move\<close> leaves the board as it was: the board after
  the call equals the board before it, every trial placement of the two lookahead loops
  having been reverted. The rest of the state is untouched as well.
\<close>

theorem get_robot_move_leaves_board:
  "shape3x3 (board w) \<Longrightarrow>
     board (snd (get_robot_move cs es w)) = board w \<and> snd (get_robot_move cs es w) = w"
  by (simp add: get_robot_move_state)

theorem get_robot_move_leaves_board_witness:
  "shape3x3 (board (start_world\<lparr>board := [[1, 0, 0], [0, 2, 0], [0, 0, 1]]\<rparr>)) \<and>
   board (snd (get_robot_move corners edges (start_world\<lparr>board := [[1, 0, 0], [0, 2, 0], [0, 0, 1]]\<rparr>)))
     = [[1, 0, 0], [0, 2, 0], [0, 0, 1]]"
proof -
  have h: "shape3x3 (board (start_world\<lparr>board := [[1, 0, 0], [0, 2, 0], [0, 0, 1]]\<rparr>))"
    by (simp add: shape3x3_def)
  show ?thesis
    using h get_robot_move_leaves_board [OF h, of corners edges] by simp
qed

text \<open>
  C4. On every 3x3 board on which some Empty cell, set to the robot's mark, makes
  \<open>check_win\<close> true for the robot, \<open>get_robot_move\<close> returns the first such cell in
  row-major order; on the board [[2,0,0],[0,2,0],[0,0,0]] it returns (2, 2).
\<close>

theorem get_robot_move_takes_first_win:
  "(shape3x3 (board w) \<longrightarrow> first_winning_cell (board w) 2 = Some mv \<longrightarrow>
      fst (get_robot_move cs es w) = Inr (Some mv)) \<and>
   fst (get_robot_move cs es (w\<lparr>board := [[2, 0, 0], [0, 2, 0], [0, 0, 0]]\<rparr>)) = Inr (Some (2, 2))"
proof (intro conjI impI)
  assume "first_winning_cell (board w) 2 = Some mv"
  then show "fst (get_robot_move cs es w) = Inr (Some mv)"
    by (simp add: get_robot_move_fst robot_move_def try_cells_find first_winning_cell_def)
next
  show "fst (get_robot_move cs es (w\<lparr>board := [[2, 0, 0], [0, 2, 0], [0, 0, 0]]\<rparr>)) = Inr (Some (2, 2))"
    by (simp add: get_robot_move_fst robot_move_def try_cells_find
        all_cells_eq cell_def set_cell_def check_win_def upt3)
qed

theorem get_robot_move_takes_first_win_witness:
  "shape3x3 (board (start_world\<lparr>board := [[2, 2, 0], [2, 1, 1], [0, 1, 0]]\<rparr>)) \<and>
   first_winning_cell (board (start_world\<lparr>board := [[2, 2, 0], [2, 1, 1], [0, 1, 0]]\<rparr>)) 2 = Some (0, 2) \<and>
   fst (get_robot_move corners edges (start_world\<lparr>board := [[2, 2, 0], [2, 1, 1], [0, 1, 0]]\<rparr>))
     = Inr (Some (0, 2))"
proof -
  have h: "shape3x3 (board (start_world\<lparr>board := [[2, 2, 0], [2, 1, 1], [0, 1, 0]]\<rparr>))"
    by (simp add: shape3x3_def)
  have f: "first_winning_cell (board (start_world\<lparr>board := [[2, 2, 0], [2, 1, 1], [0, 1, 0]]\<rparr>)) 2
             = Some (0, 2)"
    by (simp add: first_winning_cell_def all_cells_eq cell_def set_cell_def check_win_def upt3)
  show ?thesis
    using h f
      get_robot_move_takes_first_win
        [of "start_world\<lparr>board := [[2, 2, 0], [2, 1, 1], [0, 1, 0]]\<rparr>" "(0, 2)" corners edges]
    by simp
qed

text \<open>
  C5. Let the shuffled lists be permutations of the corner and edge lists. On every 3x3
  board with at least one Empty cell \<open>get_robot_move\<close> returns a coordinate with row and
  column in [0, 2] whose cell is Empty; a coordinate it returns is always in range and
  Empty; and it returns None only when no cell of the board is Empty. It raises nothing.
\<close>

theorem get_robot_move_returns_empty_cell:
  assumes "shape3x3 (board w)" and "mset cs = mset corners" and "mset es = mset edges"
  shows "((\<exists>r<3. \<exists>c<3. cell (board w) r c = 0) \<longrightarrow>
            (\<exists>r c. fst (get_robot_move cs es w) = Inr (Some (r, c)) \<and>
                   r < 3 \<and> c < 3 \<and> cell (board w) r c = 0)) \<and>
         (\<forall>r c. fst (get_robot_move cs es w) = Inr (Some (r, c)) \<longrightarrow>
                   r < 3 \<and> c < 3 \<and> cell (board w) r c = 0) \<and>
         (fst (get_robot_move cs es w) = Inr None \<longrightarrow>
            \<not> (\<exists>r<3. \<exists>c<3. cell (board w) r c = 0)) \<and>
         (\<forall>e. fst (get_robot_move cs es w) \<noteq> Inl e)"
proof -
  from assms(2,3) have sets: "set cs = set corners" "set es = set edges"
    by (auto dest: mset_eq_setD)
  have some: "r < 3 \<and> c < 3 \<and> cell (board w) r c = 0"
    if "fst (get_robot_move cs es w) = Inr (Some (r, c))" for r c
    using that robot_move_Some[OF sets, of "board w" r c] by (simp add: get_robot_move_fst)
  have none: "\<not> (\<exists>r<3. \<exists>c<3. cell (board w) r c = 0)"
    if "fst (get_robot_move cs es w) = Inr None"
    using that robot_move_None[OF sets, of "board w"] by (auto simp: get_robot_move_fst)
  have "\<exists>r c. fst (get_robot_move cs es w) = Inr (Some (r, c)) \<and>
               r < 3 \<and> c < 3 \<and> cell (board w) r c = 0"
    if ex: "\<exists>r<3. \<exists>c<3. cell (board w) r c = 0"
  proof (cases "fst (robot_move cs es (board w))")
    case None
    then have "fst (get_robot_move cs es w) = Inr None" by (simp add: get_robot_move_fst)
    from none[OF this] ex show ?thesis by blast
  next
    case (Some rc)
    obtain r c where "rc = (r, c)" by (cases rc)
    with Some have "fst (get_robot_move cs es w) = Inr (Some (r, c))"
      by (simp add: get_robot_move_fst)
    with some[OF this] show ?thesis by blast
  qed
  moreover have "\<forall>e. fst (get_robot_move cs es w) \<noteq> Inl e"
    by (simp add: get_robot_move_fst)
  ultimately show ?thesis using some none by blast
qed

theorem get_robot_move_returns_empty_cell_witness:
  "shape3x3 (board (start_world\<lparr>board := [[0, 2, 0], [2, 1, 1], [0, 1, 2]]\<rparr>)) \<and>
   mset [(2, 0), (0, 0), (2, 2), (0, 2)] = mset corners \<and>
   mset [(1, 2), (0, 1), (2, 1), (1, 0)] = mset edges \<and>
   (\<exists>r c. fst (get_robot_move [(2, 0), (0, 0), (2, 2), (0, 2)] [(1, 2), (0, 1), (2, 1), (1, 0)]
               (start_world\<lparr>board := [[0, 2, 0], [2, 1, 1], [0, 1, 2]]\<rparr>)) = Inr (Some (r, c)) \<and>
          r < 3 \<and> c < 3 \<and>
          cell (board (start_world\<lparr>board := [[0, 2, 0], [2, 1, 1], [0, 1, 2]]\<rparr>)) r c = 0)"
proof -
  have h1: "shape3x3 (board (start_world\<lparr>board := [[0, 2, 0], [2, 1, 1], [0, 1, 2]]\<rparr>))"
    by (simp add: shape3x3_def)
  have h2: "mset [(2, 0), (0, 0), (2, 2), (0, 2)] = mset corners"
    by (simp add: corners_def)
  have h3: "mset [(1, 2), (0, 1), (2, 1), (1, 0)] = mset edges"
    by (simp add: edges_def)
  have e: "\<exists>r<3. \<exists>c<3. cell (board (start_world\<lparr>board := [[0, 2, 0], [2, 1, 1], [0, 1, 2]]\<rparr>)) r c = 0"
    by (intro exI[of _ 0] conjI) (simp_all add: cell_def)
  show ?thesis
    using h1 h2 h3 e get_robot_move_returns_empty_cell [OF h1 h2 h3] by blast
qed

section \<open>Properties of the motion sequencer\<close>

lemma set_angle_twice: "set_angle n a (set_angle n a' w) = set_angle n a w"
  by (simp add: set_angle_def)

lemma fold_set_angle:
  "steps \<noteq> [] \<Longrightarrow> fold (\<lambda>step. set_angle n (f step)) steps w = set_angle n (f (last steps)) w"
proof (induction steps arbitrary: w)
  case Nil
  then show ?case by simp
next
  case (Cons a rest)
  show ?case
  proof (cases "rest = []")
    case True
    then show ?thesis by simp
  next
    case False
    with Cons.IH[OF False, of "set_angle n (f a) w"] show ?thesis
      by (simp add: set_angle_twice)
  qed
qed

text \<open>
  A smooth move raises TypeError when the read returns None, and otherwise leaves the
  servo at \<open>smooth_end\<close> of its starting angle and the target.
\<close>

lemma smoothly_eq:
  "smoothly n target w =
     (case servo w n of
        ReadFails \<Rightarrow> (Inr (), set_angle n (smooth_end target target) w)
      | NoAngle \<Rightarrow> (Inl TypeError, w)
      | Angle a \<Rightarrow> (Inr (), set_angle n (smooth_end a target) w))"
proof -
  have ne: "[0..<10] \<noteq> []" and l: "last [0..<10] = (9::nat)"
    by simp_all
  have ten: "rat_of_nat 10 = 10" and nine: "rat_of_nat (9 + 1) = 10"
    by simp_all
  show ?thesis
    unfolding smoothly_def move_servo_smoothly_def Let_def fold_set_angle[OF ne] l smooth_end_def
      ten nine
    by (simp split: reading.splits)
qed

lemma move_arm_direct:
  "move_arm_to_position position False w =
     (Inr (),
      w\<lparr>servo := (servo w)(SERVO_BASE := Angle (base position),
                             SERVO_SHOULDER := Angle (shoulder position),
                             SERVO_ELBOW := Angle (elbow position),
                             SERVO_WRIST_PITCH := Angle (wrist_pitch position),
                             SERVO_WRIST_ROLL := Angle (wrist_roll position)),
        printed := printed w @ [MovingArmTo position, ArmInPosition]\<rparr>)"
  by (simp add: move_arm_to_position_def seq_def print_line_def set_angle_def)

lemmas servo_numbers =
  SERVO_BASE_def SERVO_SHOULDER_def SERVO_ELBOW_def SERVO_WRIST_PITCH_def SERVO_WRIST_ROLL_def

lemma move_arm_smooth_fst:
  "fst (move_arm_to_position position True w) =
     (if homing_reads_angles w then Inr () else Inl TypeError)"
  by (simp add: move_arm_to_position_def seq_def print_line_def smoothly_eq set_angle_def
      homing_reads_angles_def servo_numbers split: reading.splits)

lemma move_arm_smooth_frame:
  "homing_reads_angles w \<Longrightarrow>
     board (snd (move_arm_to_position position True w)) = board w \<and>
     blue_blocks_used (snd (move_arm_to_position position True w)) = blue_blocks_used w \<and>
     red_blocks_used (snd (move_arm_to_position position True w)) = red_blocks_used w \<and>
     printed (snd (move_arm_to_position position True w))
       = printed w @ [MovingArmTo position, ArmInPosition]"
  by (simp add: move_arm_to_position_def seq_def print_line_def smoothly_eq set_angle_def
      homing_reads_angles_def servo_numbers split: reading.splits)

lemma move_arm_smooth_base:
  "servo w SERVO_BASE = Angle a \<Longrightarrow> homing_reads_angles w \<Longrightarrow>
     servo (snd (move_arm_to_position position True w)) SERVO_BASE
       = Angle (smooth_end a (base position))"
  by (simp add: move_arm_to_position_def seq_def print_line_def smoothly_eq set_angle_def
      homing_reads_angles_def servo_numbers split: reading.splits)

lemma smooth_end_tenth: "smooth_end (to_double (1 / 10)) 180 = 180 + 1 / 2 ^ 45"
  by code_simp

text \<open>
  C9 does not hold of the code. \<open>move_servo_smoothly\<close> computes its steps in floats and
  ends with the write of \<open>current + step_size * steps\<close>; unlike its sibling in sorting.py
  it does not write the target itself after the loop, and it does not guard a read that
  returns None. With the base servo standing at the float 0.1, the smooth move to the
  first red storage pose (base 180) returns with the base last commanded to
  \<open>180 + 2\<^sup>-\<^sup>4\<^sup>5\<close> (Python prints 180.00000000000003), not to the target 180; with a
  read that returns None it raises TypeError and commands nothing. In the direct mode
  every joint of every pose is commanded to its target from every state.
\<close>

theorem smooth_move_misses_target:
  "red_storage 1 = Some (board_pose 180 80) \<and>
   fst (move_arm_to_position (board_pose 180 80) True base_at_tenth) = Inr () \<and>
   servo (snd (move_arm_to_position (board_pose 180 80) True base_at_tenth)) SERVO_BASE
     = Angle (180 + 1 / 2 ^ 45) \<and>
   servo (snd (move_arm_to_position (board_pose 180 80) True base_at_tenth)) SERVO_BASE
     \<noteq> Angle (base (board_pose 180 80)) \<and>
   move_arm_to_position (board_pose 180 80) True (start_world\<lparr>servo := (\<lambda>_. NoAngle)\<rparr>)
     = (Inl TypeError, start_world\<lparr>servo := (\<lambda>_. NoAngle), printed := [MovingArmTo (board_pose 180 80)]\<rparr>) \<and>
   (\<exists>w'. move_arm_to_position position False w = (Inr (), w') \<and>
         servo w' SERVO_BASE = Angle (base position) \<and>
         servo w' SERVO_SHOULDER = Angle (shoulder position) \<and>
         servo w' SERVO_ELBOW = Angle (elbow position) \<and>
         servo w' SERVO_WRIST_PITCH = Angle (wrist_pitch position) \<and>
         servo w' SERVO_WRIST_ROLL = Angle (wrist_roll position))"
proof -
  have table: "red_storage 1 = Some (board_pose 180 80)"
    by (simp add: red_storage_def)
  have reads: "homing_reads_angles base_at_tenth"
    by (simp add: homing_reads_angles_def base_at_tenth_def start_world_def servo_numbers)
  have start: "servo base_at_tenth SERVO_BASE = Angle (to_double (1 / 10))"
    by (simp add: base_at_tenth_def)
  have returns: "fst (move_arm_to_position (board_pose 180 80) True base_at_tenth) = Inr ()"
    by (simp add: move_arm_smooth_fst reads)
  have ends: "servo (snd (move_arm_to_position (board_pose 180 80) True base_at_tenth)) SERVO_BASE
                = Angle (180 + 1 / 2 ^ 45)"
    by (simp add: move_arm_smooth_base[OF start reads] board_pose_def smooth_end_tenth)
  then have misses:
    "servo (snd (move_arm_to_position (board_pose 180 80) True base_at_tenth)) SERVO_BASE
       \<noteq> Angle (base (board_pose 180 80))"
    by (simp add: board_pose_def)
  have none: "move_arm_to_position (board_pose 180 80) True (start_world\<lparr>servo := (\<lambda>_. NoAngle)\<rparr>)
     = (Inl TypeError, start_world\<lparr>servo := (\<lambda>_. NoAngle), printed := [MovingArmTo (board_pose 180 80)]\<rparr>)"
    by (simp add: move_arm_to_position_def seq_def print_line_def smoothly_eq start_world_def)
  have direct: "\<exists>w'. move_arm_to_position position False w = (Inr (), w') \<and>
         servo w' SERVO_BASE = Angle (base position) \<and>
         servo w' SERVO_SHOULDER = Angle (shoulder position) \<and>
         servo w' SERVO_ELBOW = Angle (elbow position) \<and>
         servo w' SERVO_WRIST_PITCH = Angle (wrist_pitch position) \<and>
         servo w' SERVO_WRIST_ROLL = Angle (wrist_roll position)"
    by (simp add: move_arm_direct servo_numbers)
  from table returns ends misses none direct show ?thesis
    by (intro conjI)
qed

section \<open>Properties of the piece inventory\<close>

lemma first_unused_prefix:
  "first_unused i (replicate j True @ False # rest) = Some (i + j)"
  by (induction j arbitrary: i) simp_all

lemma first_unused_all_used: "first_unused i (replicate j True) = None"
  by (induction j arbitrary: i) simp_all

lemma blocks_used_store:
  "blocks_used side (store_blocks_used side bs w) = bs"
  by (simp add: blocks_used_def store_blocks_used_def)

lemma blocks_used_store_other:
  "blocks_used (\<not> side) (store_blocks_used side bs w) = blocks_used (\<not> side) w"
  by (simp add: blocks_used_def store_blocks_used_def)

lemma get_next_fresh:
  assumes "blocks_used side w = replicate j True @ replicate (Suc k) False"
  shows "\<exists>w'. get_next_available_block side w = (Inr (Some (j + 1)), w') \<and>
              blocks_used side w' = replicate (Suc j) True @ replicate k False \<and>
              blocks_used (\<not> side) w' = blocks_used (\<not> side) w"
proof -
  have "first_unused 0 (blocks_used side w) = Some j"
    using first_unused_prefix[of 0 j "replicate k False"] by (simp add: assms)
  moreover have "(replicate j True @ replicate (Suc k) False)[j := True]
                   = replicate (Suc j) True @ replicate k False"
    by (simp add: list_update_append replicate_append_same)
  ultimately show ?thesis
    by (simp add: get_next_available_block_def assms blocks_used_store blocks_used_store_other)
qed

lemma get_next_exhausted:
  assumes "blocks_used side w = replicate j True"
  shows "\<exists>w'. get_next_available_block side w = (Inr None, w') \<and>
              blocks_used side w' = blocks_used side w \<and>
              blocks_used (\<not> side) w' = blocks_used (\<not> side) w"
proof -
  have "first_unused 0 (blocks_used side w) = None"
    by (simp add: assms first_unused_all_used)
  then show ?thesis
    by (simp add: get_next_available_block_def seq_def print_line_def ret_def blocks_used_def)
qed

lemma allocate_times_fresh:
  "blocks_used side w = replicate j True @ replicate k False \<Longrightarrow>
     fst (allocate_times k side w) = map (\<lambda>i. Inr (Some i)) [j + 1 ..< j + k + 1] \<and>
     blocks_used side (snd (allocate_times k side w)) = replicate (j + k) True"
proof (induction k arbitrary: j w)
  case 0
  then show ?case by simp
next
  case (Suc k)
  from get_next_fresh[OF Suc.prems] obtain w1 where
    g: "get_next_available_block side w = (Inr (Some (j + 1)), w1)" and
    b: "blocks_used side w1 = replicate (Suc j) True @ replicate k False"
    by blast
  have u: "[j + 1 ..< j + Suc k + 1] = (j + 1) # [Suc j + 1 ..< Suc j + k + 1]"
    by (simp add: upt_conv_Cons)
  obtain rs w2 where a: "allocate_times k side w1 = (rs, w2)"
    by (cases "allocate_times k side w1")
  from Suc.IH[OF b] a have
    "rs = map (\<lambda>i. Inr (Some i)) [Suc j + 1 ..< Suc j + k + 1]" and
    "blocks_used side w2 = replicate (Suc j + k) True"
    by simp_all
  then show ?case
    unfolding u by (simp add: g a)
qed

lemma allocate_times_other:
  "blocks_used (\<not> side) (snd (allocate_times k side w)) = blocks_used (\<not> side) w"
proof (induction k arbitrary: w)
  case 0
  then show ?case by simp
next
  case (Suc k)
  obtain r w1 where g: "get_next_available_block side w = (r, w1)"
    by (cases "get_next_available_block side w")
  then have "blocks_used (\<not> side) w1 = blocks_used (\<not> side) w"
    by (auto simp: get_next_available_block_def store_blocks_used_def seq_def print_line_def
        ret_def blocks_used_def split: option.splits)
  moreover obtain rs w2 where a: "allocate_times k side w1 = (rs, w2)"
    by (cases "allocate_times k side w1")
  moreover from Suc.IH[of w1] a have "blocks_used (\<not> side) w2 = blocks_used (\<not> side) w1"
    by simp
  ultimately show ?case
    by (simp add: g)
qed

lemma used_stay_used_update: "used_stay_used bs (bs[i := True])"
proof -
  have "bs[i := True] ! k" if "k < length bs" and "bs ! k" for k
    using that by (cases "k = i") simp_all
  then show ?thesis
    by (simp add: used_stay_used_def list_all2_conv_all_nth)
qed

lemma used_stay_used_refl: "used_stay_used bs bs"
  by (simp add: used_stay_used_def list_all2_conv_all_nth)

lemma get_next_used_stay_used:
  "used_stay_used (blocks_used side' w) (blocks_used side' (snd (get_next_available_block side w)))"
  by (cases side; cases side')
     (auto simp: get_next_available_block_def blocks_used_def store_blocks_used_def seq_def
        print_line_def ret_def used_stay_used_update used_stay_used_refl split: option.splits)

lemma used_stay_used_trans:
  assumes "used_stay_used as bs" and "used_stay_used bs cs"
  shows "used_stay_used as cs"
  unfolding used_stay_used_def list_all2_conv_all_nth
proof (intro conjI allI impI)
  from assms show "length as = length cs"
    by (simp add: used_stay_used_def list_all2_conv_all_nth)
next
  fix i assume "i < length as" and "as ! i"
  with assms show "cs ! i"
    by (simp add: used_stay_used_def list_all2_conv_all_nth)
qed

lemma blocks_mono_keeps: "keeps_blocks c \<Longrightarrow> blocks_mono c"
  by (simp add: blocks_mono_def keeps_blocks_def blocks_used_def used_stay_used_refl)

lemma blocks_monoD:
  "blocks_mono c \<Longrightarrow> c w = (r, w') \<Longrightarrow> used_stay_used (blocks_used side w) (blocks_used side w')"
  unfolding blocks_mono_def by (metis snd_conv)

lemma blocks_mono_seq:
  assumes "blocks_mono m" and "\<And>x. blocks_mono (f x)"
  shows "blocks_mono (seq m f)"
  unfolding blocks_mono_def
proof (intro allI)
  fix w side
  obtain r w1 where m: "m w = (r, w1)" by (cases "m w")
  note first = blocks_monoD[OF assms(1) m, of side]
  show "used_stay_used (blocks_used side w) (blocks_used side (snd (seq m f w)))"
  proof (cases r)
    case (Inl e)
    with m first show ?thesis by (simp add: seq_def)
  next
    case (Inr x)
    obtain r2 w2 where f: "f x w1 = (r2, w2)" by (cases "f x w1")
    from blocks_monoD[OF assms(2) f, of side] first Inr m f show ?thesis
      by (auto simp: seq_def intro: used_stay_used_trans)
  qed
qed

lemma blocks_mono_get_next: "blocks_mono (get_next_available_block side)"
  by (simp add: blocks_mono_def get_next_used_stay_used)

lemma blocks_mono_pick_block: "blocks_mono (pick_block side)"
  unfolding pick_block_def
  apply (rule blocks_mono_seq[OF blocks_mono_get_next])
  subgoal for block_num
    apply (cases block_num)
     apply (simp only: option.case)
     apply (rule blocks_mono_keeps)
     apply (intro keeps_blocks_motion)
    apply (simp only: option.case)
    apply (rule blocks_mono_keeps)
    apply (cases side)
     apply (simp_all only: if_True if_False)
     apply (intro keeps_blocks_motion)
    apply (intro keeps_blocks_motion)
    done
  done

lemma blocks_mono_after_pick:
  "blocks_mono (if picked then
               seq (place_block robot_row robot_col) (\<lambda>_.
               seq move_to_home (\<lambda>_.
               seq (\<lambda>w. (Inr (), w\<lparr>board := set_cell (board w) robot_row robot_col 2\<rparr>)) (\<lambda>_.
               seq display_board (\<lambda>_. (\<lambda>w.
                 if check_win (board w) 2 then seq (print_line RobotWins) (\<lambda>_. ret Over) w
                 else if check_draw (board w) then seq (print_line ItsADraw) (\<lambda>_. ret Over) w
                 else ret Continue w)))))
             else seq (print_line OutOfBlocks) (\<lambda>_. ret Over))"
  by (cases picked)
     (simp_all add: blocks_mono_keeps keeps_blocks_basic keeps_blocks_place_block
        keeps_blocks_move_to_home keeps_blocks_commit keeps_blocks_display_board
        keeps_blocks_robot_verdict)

lemma blocks_mono_robot_turn: "blocks_mono (robot_turn cs es)"
  unfolding robot_turn_def
  apply (intro blocks_mono_seq blocks_mono_keeps[OF keeps_blocks_print_line]
      blocks_mono_keeps[OF keeps_blocks_get_robot_move])
  subgoal for u mv
    apply (split option.split)
    apply (intro conjI allI impI)
     apply (rule blocks_mono_keeps[OF keeps_blocks_raise])
    apply (split prod.split)
    apply (intro allI impI blocks_mono_seq blocks_mono_pick_block
        blocks_mono_keeps[OF keeps_blocks_print_line] blocks_mono_after_pick)
    done
  done

lemma blocks_mono_after_display:
  "blocks_mono (\<lambda>w1.
       if check_win (board w1) 1 then seq (print_line PlayerWins) (\<lambda>_. ret Over) w1
       else if check_draw (board w1) then seq (print_line ItsADraw) (\<lambda>_. ret Over) w1
       else robot_turn cs es w1)"
  using blocks_mono_robot_turn[of cs es]
  unfolding blocks_mono_def
  by (auto simp: seq_def print_line_def ret_def blocks_used_def used_stay_used_refl)

lemma blocks_mono_game_turn: "blocks_mono (game_turn t)"
proof -
  have "blocks_mono
     (seq (wait_for_player_move prev (polls t)) (\<lambda>player_move.
       case player_move of
         None \<Rightarrow> seq (print_line GameAborted) (\<lambda>_. ret (Returned False))
       | Some _ \<Rightarrow>
           seq display_board (\<lambda>_. (\<lambda>w1.
             if check_win (board w1) 1 then seq (print_line PlayerWins) (\<lambda>_. ret Over) w1
             else if check_draw (board w1) then seq (print_line ItsADraw) (\<lambda>_. ret Over) w1
             else robot_turn (shuffled_corners t) (shuffled_edges t) w1))))" for prev
    apply (intro blocks_mono_seq blocks_mono_keeps[OF keeps_blocks_wait_for_player_move])
    subgoal for player_move
      apply (split option.split)
      apply (intro conjI allI impI blocks_mono_seq blocks_mono_keeps[OF keeps_blocks_print_line]
          blocks_mono_keeps[OF keeps_blocks_ret] blocks_mono_keeps[OF keeps_blocks_display_board]
          blocks_mono_after_display)
      done
    done
  then show ?thesis
    unfolding blocks_mono_def game_turn_def by blast
qed

lemma blocks_used_printed: "blocks_used side (w\<lparr>printed := p\<rparr>) = blocks_used side w"
  by (simp add: blocks_used_def)

lemma blocks_mono_game_loop:
  "used_stay_used (blocks_used side w) (blocks_used side (snd (game_loop turns n w)))"
proof (induction turns n w rule: game_loop.induct)
  case (1 turns n w)
  obtain r w1 where t: "game_turn (turns n) w = (r, w1)"
    by (cases "game_turn (turns n) w")
  note step = blocks_monoD[OF blocks_mono_game_turn t, of side]
  show ?case
  proof (cases r)
    case (Inl e)
    with t step show ?thesis by (simp add: game_loop.simps[of turns n w])
  next
    case (Inr fl)
    show ?thesis
    proof (cases fl)
      case Continue
      from "1.IH"[OF t[symmetric, unfolded Inr Continue] refl refl] step t Inr Continue
      show ?thesis
        by (auto simp: game_loop.simps[of turns n w] intro: used_stay_used_trans)
    next
      case Over
      with t step Inr show ?thesis
        by (simp add: game_loop.simps[of turns n w] seq_def print_line_def ret_def
            blocks_used_printed)
    next
      case (Returned b)
      with t step Inr show ?thesis by (simp add: game_loop.simps[of turns n w])
    qed
  qed
qed

lemma blocks_mono_allocate_times:
  "used_stay_used (blocks_used side' w) (blocks_used side' (snd (allocate_times k side w)))"
proof (induction k arbitrary: w)
  case 0
  then show ?case by (simp add: used_stay_used_refl)
next
  case (Suc k)
  obtain r w1 where g: "get_next_available_block side w = (r, w1)"
    by (cases "get_next_available_block side w")
  obtain rs w2 where a: "allocate_times k side w1 = (rs, w2)"
    by (cases "allocate_times k side w1")
  from get_next_used_stay_used[of side' w side] g
  have "used_stay_used (blocks_used side' w) (blocks_used side' w1)" by simp
  moreover from Suc.IH[of w1] a
  have "used_stay_used (blocks_used side' w1) (blocks_used side' w2)" by simp
  ultimately show ?case
    by (simp add: g a used_stay_used_trans)
qed

text \<open>
  C6. From an inventory of \<open>N\<close> slots of one side that are all unused, \<open>N\<close> successive
  calls of \<open>get_next_available_block\<close> for that side return the slot numbers 1 to \<open>N\<close>,
  each once and in scan order, and leave every slot marked used; the next call returns
  None. No slot returns to unused: after any number of calls from any state, and after
  the whole game loop of a session run from any state, every slot of either side that
  was used is still used.
\<close>

theorem allocation_returns_each_slot_once:
  assumes "blocks_used side w = replicate N False"
  shows "fst (allocate_times N side w) = map (\<lambda>i. Inr (Some i)) [1 ..< N + 1] \<and>
         blocks_used side (snd (allocate_times N side w)) = replicate N True \<and>
         fst (get_next_available_block side (snd (allocate_times N side w))) = Inr None \<and>
         used_stay_used (blocks_used side' w0) (blocks_used side' (snd (allocate_times k side w0))) \<and>
         used_stay_used (blocks_used side' w0) (blocks_used side' (snd (game_loop turns n w0)))"
proof -
  from assms have "blocks_used side w = replicate 0 True @ replicate N False" by simp
  from allocate_times_fresh[OF this]
  have a: "fst (allocate_times N side w) = map (\<lambda>i. Inr (Some i)) [1 ..< N + 1]"
    and b: "blocks_used side (snd (allocate_times N side w)) = replicate N True"
    by simp_all
  from get_next_exhausted[OF b]
  have "fst (get_next_available_block side (snd (allocate_times N side w))) = Inr None"
    by auto
  with a b show ?thesis
    using blocks_mono_allocate_times[of side' w0 k side] blocks_mono_game_loop[of side' w0 turns n]
    by blast
qed

theorem allocation_returns_each_slot_once_witness:
  "blocks_used True start_world = replicate 5 False \<and>
   fst (allocate_times 5 True start_world)
     = [Inr (Some 1), Inr (Some 2), Inr (Some 3), Inr (Some 4), Inr (Some 5)] \<and>
   blocks_used True (snd (allocate_times 5 True start_world)) = [True, True, True, True, True] \<and>
   fst (get_next_available_block True (snd (allocate_times 5 True start_world))) = Inr None"
proof -
  have h: "blocks_used True start_world = replicate 5 False"
    by (simp add: blocks_used_def start_world_def)
  have u: "[1 ..< 5 + 1] = [1, 2, 3, 4, 5::nat]"
    by (simp add: upt_rec)
  have r: "replicate 5 True = [True, True, True, True, True]"
    by (simp add: numeral_eq_Suc)
  show ?thesis
    using h allocation_returns_each_slot_once [OF h, of True start_world 0
        "\<lambda>_. \<lparr>polls = [], shuffled_corners = corners, shuffled_edges = edges\<rparr>" 0]
    unfolding u r by simp
qed

section \<open>Properties of the orchestrator\<close>

lemma move_to_home_fst:
  "fst (move_to_home w) = (if homing_reads_angles w then Inr () else Inl TypeError)"
proof -
  have "homing_reads_angles (w\<lparr>printed := printed w @ [MovingToHome]\<rparr>) = homing_reads_angles w"
    by (simp add: homing_reads_angles_def)
  then show ?thesis
    by (simp add: move_to_home_def seq_def print_line_def move_arm_smooth_fst)
qed

lemma move_to_home_frame:
  assumes "homing_reads_angles w"
  shows "board (snd (move_to_home w)) = board w \<and>
         blue_blocks_used (snd (move_to_home w)) = blue_blocks_used w \<and>
         red_blocks_used (snd (move_to_home w)) = red_blocks_used w \<and>
         printed (snd (move_to_home w))
           = printed w @ [MovingToHome, MovingArmTo home_position, ArmInPosition]"
proof -
  from assms have "homing_reads_angles (w\<lparr>printed := printed w @ [MovingToHome]\<rparr>)"
    by (simp add: homing_reads_angles_def)
  from move_arm_smooth_frame[OF this, of home_position] show ?thesis
    by (simp add: move_to_home_def seq_def print_line_def)
qed

lemma homing_reads_angles_reset:
  "homing_reads_angles ((reset_game w0)\<lparr>printed := p\<rparr>) = homing_reads_angles w0"
  by (simp add: homing_reads_angles_def reset_game_def)

lemma run_game_enters_loop:
  assumes "homing_reads_angles w0" and "\<not> sum_list (map sum_list seen) > 0"
  shows "run_game (Some seen) answer_is_y turns w0 = game_loop turns 0 (at_first_wait seen w0)"
proof -
  let ?r = "(reset_game w0)\<lparr>printed := printed w0 @ [StartingGame]\<rparr>"
  from assms(1) have reads: "homing_reads_angles ?r"
    by (simp add: homing_reads_angles_reset)
  obtain h where home: "move_to_home ?r = (Inr (), h)"
    using move_to_home_fst[of ?r] reads by (cases "move_to_home ?r") simp
  from move_to_home_frame[OF reads] home
  have "printed h = printed w0 @ [StartingGame, MovingToHome, MovingArmTo home_position, ArmInPosition]"
    by (simp add: reset_game_def)
  with home assms(2) show ?thesis
    by (simp add: run_game_def seq_def print_line_def analyze_board_state_def reset_game_def
        at_first_wait_def)
qed

lemma run_game_homing_raises:
  assumes "\<not> homing_reads_angles w0"
  shows "fst (run_game initial_scan answer_is_y turns w0) = Inl TypeError"
proof -
  let ?r = "(reset_game w0)\<lparr>printed := printed w0 @ [StartingGame]\<rparr>"
  from assms have "fst (move_to_home ?r) = Inl TypeError"
    by (simp add: move_to_home_fst homing_reads_angles_reset)
  then obtain x where "move_to_home ?r = (Inl TypeError, x)"
    by (cases "move_to_home ?r") simp
  then show ?thesis
    by (simp add: run_game_def seq_def print_line_def reset_game_def)
qed

lemma detect_no_move:
  assumes "reports_no_player_move prev seen"
  shows "detect_player_move prev seen w =
           (Inr None,
            case seen of
              None \<Rightarrow> w\<lparr>printed := printed w @ [FailedToAnalyze, FailedToDetect]\<rparr>
            | Some b \<Rightarrow> w\<lparr>board := b, printed := printed w @ [NoValidPlayerMove]\<rparr>)"
proof (cases seen)
  case None
  then show ?thesis
    by (simp add: detect_player_move_def analyze_board_state_def seq_def print_line_def ret_def)
next
  case (Some b)
  with assms have "find (\<lambda>(row, col). cell prev row col = 0 \<and> cell b row col = 1) all_cells = None"
    by (auto simp: reports_no_player_move_def find_None_iff list_ex_iff)
  with Some show ?thesis
    by (simp add: detect_player_move_def analyze_board_state_def seq_def print_line_def ret_def)
qed

lemma wait_loop_in_vain:
  "list_all (reports_no_player_move prev) ps \<Longrightarrow>
     wait_loop prev ps w =
       (Inr None, w\<lparr>board := last_seen (board w) ps, printed := printed w @ wait_messages ps\<rparr>)"
proof (induction ps arbitrary: w)
  case Nil
  show ?case by (simp add: seq_def print_line_def ret_def)
next
  case (Cons seen later)
  then have now: "reports_no_player_move prev seen"
    and rest: "list_all (reports_no_player_move prev) later"
    by simp_all
  show ?case
  proof (cases seen)
    case None
    then show ?thesis
      using detect_no_move[OF now, of w]
      by (simp add: seq_def print_line_def Cons.IH[OF rest])
  next
    case (Some b)
    then show ?thesis
      using detect_no_move[OF now, of w]
      by (simp add: seq_def print_line_def Cons.IH[OF rest])
  qed
qed

lemma wait_messages_no_robot_action: "filter robot_action (wait_messages ps) = []"
  by (induction ps rule: wait_messages.induct) simp_all

text \<open>
  C7. Take any run of the loop of \<open>run_game\<close>, from any state with a 3x3 board. If every
  poll before the timeout reports no Empty-to-PlayerMark change relative to the snapshot
  taken at the start of the run, then \<open>wait_for_player_move\<close> returns None, and the loop
  ends there: \<open>run_game\<close> prints "Game aborted" and returns False. Between the snapshot
  and the return nothing of the robot's turn happens: no line of move selection, picking,
  placing or arm motion is printed, and servos and block lists are as before (only the
  board, replaced by the polls' readings, and the printed lines differ). In particular,
  when this happens in the first run of the loop, \<open>run_game\<close> as a whole returns False
  and the only arm motion of the session is the move to the home position that precedes
  the loop; the loop is not reached at all, and \<open>run_game\<close> raises TypeError, when a read
  of that move returns None.
\<close>

theorem no_player_move_aborts:
  assumes "shape3x3 (board w)" and "list_all seen_3x3 (polls (turns n))"
    and "list_all (reports_no_player_move (board w)) (polls (turns n))"
  shows "wait_for_player_move (board w) (polls (turns n)) w =
           (Inr None, w\<lparr>board := last_seen (board w) (polls (turns n)),
                         printed := printed w @ WaitingForPlayer # wait_messages (polls (turns n))\<rparr>) \<and>
         game_loop turns n w =
           (Inr False, w\<lparr>board := last_seen (board w) (polls (turns n)),
                          printed := printed w @ WaitingForPlayer # wait_messages (polls (turns n))
                                       @ [GameAborted]\<rparr>) \<and>
         filter robot_action (printed (snd (game_loop turns n w))) = filter robot_action (printed w) \<and>
         servo (snd (game_loop turns n w)) = servo w \<and>
         red_blocks_used (snd (game_loop turns n w)) = red_blocks_used w \<and>
         blue_blocks_used (snd (game_loop turns n w)) = blue_blocks_used w \<and>
         (n = 0 \<longrightarrow> w = at_first_wait seen w0 \<longrightarrow> \<not> 0 < sum_list (map sum_list seen) \<longrightarrow>
            (if homing_reads_angles w0 then
               fst (run_game (Some seen) answer_is_y turns w0) = Inr False \<and>
               filter robot_action (printed (snd (run_game (Some seen) answer_is_y turns w0)))
                 = filter robot_action (printed w0) @
                     [MovingToHome, MovingArmTo home_position, ArmInPosition]
             else fst (run_game (Some seen) answer_is_y turns w0) = Inl TypeError))"
proof -
  have wait: "wait_for_player_move (board w) (polls (turns n)) w =
           (Inr None, w\<lparr>board := last_seen (board w) (polls (turns n)),
                         printed := printed w @ WaitingForPlayer # wait_messages (polls (turns n))\<rparr>)"
    by (simp add: wait_for_player_move_def seq_def print_line_def wait_loop_in_vain[OF assms(3)])
  then have loop: "game_loop turns n w =
           (Inr False, w\<lparr>board := last_seen (board w) (polls (turns n)),
                          printed := printed w @ WaitingForPlayer # wait_messages (polls (turns n))
                                       @ [GameAborted]\<rparr>)"
    by (simp add: game_loop.simps[of turns n w] game_turn_def seq_def print_line_def ret_def)
  have whole: "fst (run_game (Some seen) answer_is_y turns w0) = Inr False \<and>
            filter robot_action (printed (snd (run_game (Some seen) answer_is_y turns w0)))
              = filter robot_action (printed w0) @
                  [MovingToHome, MovingArmTo home_position, ArmInPosition]"
    if "n = 0" and "w = at_first_wait seen w0" and "\<not> 0 < sum_list (map sum_list seen)"
      and "homing_reads_angles w0"
  proof -
    from that have "run_game (Some seen) answer_is_y turns w0 = game_loop turns n w"
      by (simp add: run_game_enters_loop)
    moreover from that(2) have
      "filter robot_action (printed w)
         = filter robot_action (printed w0) @ [MovingToHome, MovingArmTo home_position, ArmInPosition]"
      by (simp add: at_first_wait_def)
    ultimately show ?thesis
      by (simp add: loop wait_messages_no_robot_action)
  qed
  from wait loop whole show ?thesis
    by (simp add: wait_messages_no_robot_action run_game_homing_raises)
qed

theorem no_player_move_aborts_witness:
  "shape3x3 (board (at_first_wait zeros3x3 start_world)) \<and>
   list_all seen_3x3 [None, Some [[0, 0, 0], [0, 2, 0], [0, 0, 0]], Some zeros3x3] \<and>
   list_all (reports_no_player_move (board (at_first_wait zeros3x3 start_world)))
     [None, Some [[0, 0, 0], [0, 2, 0], [0, 0, 0]], Some zeros3x3] \<and>
   \<not> 0 < sum_list (map sum_list zeros3x3) \<and>
   homing_reads_angles start_world \<and>
   fst (game_loop (\<lambda>_. \<lparr>polls = [None, Some [[0, 0, 0], [0, 2, 0], [0, 0, 0]], Some zeros3x3],
                         shuffled_corners = corners, shuffled_edges = edges\<rparr>) 0
          (at_first_wait zeros3x3 start_world)) = Inr False \<and>
   fst (run_game (Some zeros3x3) False
          (\<lambda>_. \<lparr>polls = [None, Some [[0, 0, 0], [0, 2, 0], [0, 0, 0]], Some zeros3x3],
                 shuffled_corners = corners, shuffled_edges = edges\<rparr>) start_world) = Inr False \<and>
   printed (snd (run_game (Some zeros3x3) False
          (\<lambda>_. \<lparr>polls = [None, Some [[0, 0, 0], [0, 2, 0], [0, 0, 0]], Some zeros3x3],
                 shuffled_corners = corners, shuffled_edges = edges\<rparr>) start_world))
     = [StartingGame, MovingToHome, MovingArmTo home_position, ArmInPosition, WaitingFirstMove,
        WaitingForPlayer, FailedToAnalyze, FailedToDetect, NoMoveYet, NoValidPlayerMove, NoMoveYet,
        NoValidPlayerMove, NoMoveYet, TimeoutWaiting, GameAborted]"
proof -
  have h1: "shape3x3 (board (at_first_wait zeros3x3 start_world))"
    by (simp add: at_first_wait_def zeros3x3_eq shape3x3_def)
  have h2: "list_all seen_3x3 [None, Some [[0, 0, 0], [0, 2, 0], [0, 0, 0]], Some zeros3x3]"
    by (simp add: seen_3x3_def zeros3x3_eq shape3x3_def)
  have h3: "list_all (reports_no_player_move (board (at_first_wait zeros3x3 start_world)))
              [None, Some [[0, 0, 0], [0, 2, 0], [0, 0, 0]], Some zeros3x3]"
    by (simp add: reports_no_player_move_def at_first_wait_def zeros3x3_eq all_cells_eq cell_def)
  have h4: "\<not> 0 < sum_list (map sum_list zeros3x3)"
    by (simp add: zeros3x3_eq)
  have h5: "homing_reads_angles start_world"
    by (simp add: homing_reads_angles_def start_world_def)
  have enter: "run_game (Some zeros3x3) False
          (\<lambda>_. \<lparr>polls = [None, Some [[0, 0, 0], [0, 2, 0], [0, 0, 0]], Some zeros3x3],
                 shuffled_corners = corners, shuffled_edges = edges\<rparr>) start_world
        = game_loop (\<lambda>_. \<lparr>polls = [None, Some [[0, 0, 0], [0, 2, 0], [0, 0, 0]], Some zeros3x3],
                         shuffled_corners = corners, shuffled_edges = edges\<rparr>) 0
          (at_first_wait zeros3x3 start_world)"
    by (rule run_game_enters_loop[OF h5 h4])
  show ?thesis
    using h1 h2 h3 h4 h5
      no_player_move_aborts
        [of "at_first_wait zeros3x3 start_world"
            "\<lambda>_. \<lparr>polls = [None, Some [[0, 0, 0], [0, 2, 0], [0, 0, 0]], Some zeros3x3],
                   shuffled_corners = corners, shuffled_edges = edges\<rparr>" 0 zeros3x3 start_world False]
    by (simp add: enter) (simp add: at_first_wait_def start_world_def)
qed

lemma first_unused_None: "list_all id bs \<Longrightarrow> first_unused i bs = None"
  by (induction bs arbitrary: i) simp_all

lemma pick_block_exhausted:
  assumes "list_all id (red_blocks_used w)"
  shows "pick_block True w =
           (Inr False, w\<lparr>printed := printed w @ [NoMoreBlocksWarning, NoBlocksError]\<rparr>)"
  using first_unused_None[OF assms, of 0]
  by (simp add: pick_block_def get_next_available_block_def blocks_used_def seq_def
      print_line_def ret_def)

lemma display_board_ok:
  assumes "list_all (\<lambda>(row, col). cell (board w) row col \<in> {0, 1, 2}) all_cells"
  shows "display_board w = (Inr (), w\<lparr>printed := printed w @ [BoardDisplayed (board w)]\<rparr>)"
  using assms by (simp add: display_board_def print_line_def)

lemma robot_move_exists:
  assumes "shape3x3 b" and "\<not> check_draw b"
    and "set cs = set corners" and "set es = set edges"
  shows "\<exists>r c. fst (robot_move cs es b) = Some (r, c) \<and> r < 3 \<and> c < 3 \<and> cell b r c = 0"
proof (cases "fst (robot_move cs es b)")
  case None
  from robot_move_None[OF assms(3,4) None] have "no_empty_cell b"
    by (auto simp: no_empty_cell_def list_all_iff in_all_cells)
  with assms(1,2) show ?thesis by (simp add: check_draw_cells)
next
  case (Some rc)
  obtain r c where "rc = (r, c)" by (cases rc)
  with Some robot_move_Some[OF assms(3,4), of b r c] show ?thesis by simp
qed

lemma robot_turn_exhausted:
  assumes "shape3x3 (board w)" and "\<not> check_draw (board w)"
    and "set cs = set corners" and "set es = set edges"
    and "list_all id (red_blocks_used w)"
  shows "\<exists>r c. robot_turn cs es w =
           (Inr Over, w\<lparr>printed := printed w @ [RobotsTurn, RobotDecides r c, NoMoreBlocksWarning,
                                                  NoBlocksError, OutOfBlocks]\<rparr>) \<and>
               r < 3 \<and> c < 3 \<and> cell (board w) r c = 0"
proof -
  let ?w1 = "w\<lparr>printed := printed w @ [RobotsTurn]\<rparr>"
  from robot_move_exists[OF assms(1-4)] obtain r c
    where mv: "fst (robot_move cs es (board w)) = Some (r, c)"
      and ok: "r < 3 \<and> c < 3 \<and> cell (board w) r c = 0"
    by blast
  have g: "get_robot_move cs es ?w1 = (Inr (Some (r, c)), ?w1)"
    using get_robot_move_fst[of cs es ?w1] get_robot_move_state[of cs es ?w1] mv
    by (simp add: prod_eq_iff)
  let ?w2 = "w\<lparr>printed := printed w @ [RobotsTurn, RobotDecides r c]\<rparr>"
  have p: "pick_block True ?w2 =
             (Inr False, ?w2\<lparr>printed := printed ?w2 @ [NoMoreBlocksWarning, NoBlocksError]\<rparr>)"
    by (rule pick_block_exhausted) (simp add: assms(5))
  have "robot_turn cs es w =
           (Inr Over, w\<lparr>printed := printed w @ [RobotsTurn, RobotDecides r c, NoMoreBlocksWarning,
                                                  NoBlocksError, OutOfBlocks]\<rparr>)"
    using g p by (simp add: robot_turn_def seq_def print_line_def ret_def)
  with ok show ?thesis by blast
qed

lemma centre_move_detected:
  "wait_for_player_move (board all_red_used) (polls (centre_turns 0)) all_red_used
     = (Inr (Some (1, 1)), after_centre_move)"
  by (simp add: wait_for_player_move_def detect_player_move_def analyze_board_state_def seq_def
      print_line_def ret_def all_cells_eq cell_def all_red_used_def centre_turns_def
      centre_taken_def after_centre_move_def start_world_def zeros3x3_eq)

text \<open>
  C10 fails as stated. Let every red block be used and let the player take the centre of
  the empty board. The robot's turn then fails in \<open>pick_block\<close>, and the session does
  not end as aborted: the loop is left through \<open>game_over\<close>, the lines printed after the
  player's move end with "Robot couldn't complete move - out of blocks" and "Game over!",
  "Game aborted" is not among them, and the value returned is True, the value of a
  completed game, where the abort of lines 563-565 prints "Game aborted" and returns
  False.
\<close>

theorem out_of_blocks_not_aborted:
  "fst (game_loop centre_turns 0 all_red_used) = Inr True \<and>
   fst (game_loop centre_turns 0 all_red_used) \<noteq> Inr False \<and>
   GameAborted \<notin> set (printed (snd (game_loop centre_turns 0 all_red_used))) \<and>
   last (printed (snd (game_loop centre_turns 0 all_red_used))) = GameOver \<and>
   list_all id (red_blocks_used all_red_used) \<and>
   board (snd (game_loop centre_turns 0 all_red_used)) = centre_taken"
proof -
  let ?w2 = "after_centre_move\<lparr>printed := printed after_centre_move @ [BoardDisplayed centre_taken]\<rparr>"
  have b: "board after_centre_move = centre_taken"
    by (simp add: after_centre_move_def)
  have d: "display_board after_centre_move = (Inr (), ?w2)"
    using display_board_ok[of after_centre_move]
    by (simp add: b centre_taken_def all_cells_eq cell_def)
  have "shape3x3 (board ?w2)" and "\<not> check_draw (board ?w2)"
    and "set (shuffled_corners (centre_turns 0)) = set corners"
    and "set (shuffled_edges (centre_turns 0)) = set edges"
    and "list_all id (red_blocks_used ?w2)"
    by (auto simp: b centre_taken_def shape3x3_def check_draw_def centre_turns_def
        corners_def after_centre_move_def all_red_used_def)
  from robot_turn_exhausted[OF this] obtain r c where
    rt: "robot_turn (shuffled_corners (centre_turns 0)) (shuffled_edges (centre_turns 0)) ?w2 =
           (Inr Over, ?w2\<lparr>printed := printed ?w2 @ [RobotsTurn, RobotDecides r c,
                              NoMoreBlocksWarning, NoBlocksError, OutOfBlocks]\<rparr>)"
    by blast
  have w: "\<not> check_win centre_taken 1" and dr: "\<not> check_draw centre_taken"
    by (simp_all add: centre_taken_def check_win_def check_draw_def cell_def upt3)
  have "game_turn (centre_turns 0) all_red_used =
           (Inr Over, ?w2\<lparr>printed := printed ?w2 @ [RobotsTurn, RobotDecides r c,
                              NoMoreBlocksWarning, NoBlocksError, OutOfBlocks]\<rparr>)"
    using centre_move_detected d rt w dr by (simp add: game_turn_def seq_def b)
  then have "game_loop centre_turns 0 all_red_used =
           (Inr True, ?w2\<lparr>printed := printed ?w2 @ [RobotsTurn, RobotDecides r c,
                              NoMoreBlocksWarning, NoBlocksError, OutOfBlocks, GameOver]\<rparr>)"
    by (simp add: game_loop.simps[of centre_turns 0 all_red_used] seq_def print_line_def ret_def)
  then show ?thesis
    by (simp add: after_centre_move_def all_red_used_def)
qed

text \<open>
  C10, amended. Take any run of the loop of \<open>run_game\<close> in which the player's move is
  detected, leaving a 3x3 board of valid marks without a player win or a draw, and let
  every red block be used when the robot's turn starts. Then the move is selected,
  \<open>pick_block\<close> fails, and the session ends there, as a finished game and not as an
  aborted one: "Robot couldn't complete move - out of blocks" is printed, the loop is left
  with \<open>game_over\<close> set, and \<open>run_game\<close> prints "Game over!" and returns True, declaring
  neither a win nor a draw. The state is the one after the player's move but for the
  printed lines: the board is unchanged and the selected cell is still Empty, not the
  robot's mark, which is written only after a successful pick.
\<close>

theorem out_of_blocks_ends_game:
  assumes "wait_for_player_move (board w) (polls (turns n)) w = (Inr (Some mv), w1)"
    and "shape3x3 (board w1)"
    and "list_all (\<lambda>(row, col). cell (board w1) row col \<in> {0, 1, 2}) all_cells"
    and "\<not> check_win (board w1) 1" and "\<not> check_draw (board w1)"
    and "mset (shuffled_corners (turns n)) = mset corners"
    and "mset (shuffled_edges (turns n)) = mset edges"
    and "list_all id (red_blocks_used w1)"
  shows "\<exists>r c. game_loop turns n w =
           (Inr True, w1\<lparr>printed := printed w1 @
              [BoardDisplayed (board w1), RobotsTurn, RobotDecides r c, NoMoreBlocksWarning,
               NoBlocksError, OutOfBlocks, GameOver]\<rparr>) \<and>
           r < 3 \<and> c < 3 \<and> cell (board w1) r c = 0 \<and>
           board (snd (game_loop turns n w)) = board w1 \<and>
           cell (board (snd (game_loop turns n w))) r c \<noteq> 2"
proof -
  let ?w2 = "w1\<lparr>printed := printed w1 @ [BoardDisplayed (board w1)]\<rparr>"
  from assms(6,7) have sets: "set (shuffled_corners (turns n)) = set corners"
    "set (shuffled_edges (turns n)) = set edges"
    by (auto dest: mset_eq_setD)
  have d: "display_board w1 = (Inr (), ?w2)"
    by (rule display_board_ok[OF assms(3)])
  from robot_turn_exhausted[of ?w2, OF _ _ sets] assms(2,5,8) obtain r c where
    rt: "robot_turn (shuffled_corners (turns n)) (shuffled_edges (turns n)) ?w2 =
           (Inr Over, ?w2\<lparr>printed := printed ?w2 @ [RobotsTurn, RobotDecides r c,
                              NoMoreBlocksWarning, NoBlocksError, OutOfBlocks]\<rparr>)"
    and ok: "r < 3 \<and> c < 3 \<and> cell (board w1) r c = 0"
    by auto
  have "game_turn (turns n) w =
           (Inr Over, w1\<lparr>printed := printed w1 @
              [BoardDisplayed (board w1), RobotsTurn, RobotDecides r c, NoMoreBlocksWarning,
               NoBlocksError, OutOfBlocks]\<rparr>)"
    using assms(1,4,5) d rt by (simp add: game_turn_def seq_def)
  then have "game_loop turns n w =
           (Inr True, w1\<lparr>printed := printed w1 @
              [BoardDisplayed (board w1), RobotsTurn, RobotDecides r c, NoMoreBlocksWarning,
               NoBlocksError, OutOfBlocks, GameOver]\<rparr>)"
    by (simp add: game_loop.simps[of turns n w] seq_def print_line_def ret_def)
  with ok show ?thesis
    by (intro exI[of _ r] exI[of _ c]) simp
qed

theorem out_of_blocks_ends_game_witness:
  "wait_for_player_move (board all_red_used) (polls (centre_turns 0)) all_red_used
     = (Inr (Some (1, 1)), after_centre_move) \<and>
   shape3x3 (board after_centre_move) \<and>
   \<not> check_win (board after_centre_move) 1 \<and> \<not> check_draw (board after_centre_move) \<and>
   list_all id (red_blocks_used after_centre_move) \<and>
   (\<exists>r c. game_loop centre_turns 0 all_red_used =
           (Inr True, after_centre_move\<lparr>printed := printed after_centre_move @
              [BoardDisplayed (board after_centre_move), RobotsTurn, RobotDecides r c,
               NoMoreBlocksWarning, NoBlocksError, OutOfBlocks, GameOver]\<rparr>) \<and>
           cell (board after_centre_move) r c = 0 \<and>
           board (snd (game_loop centre_turns 0 all_red_used)) = centre_taken)"
proof -
  have h1: "wait_for_player_move (board all_red_used) (polls (centre_turns 0)) all_red_used
              = (Inr (Some (1, 1)), after_centre_move)"
    by (rule centre_move_detected)
  have b: "board after_centre_move = centre_taken"
    by (simp add: after_centre_move_def)
  have h2: "shape3x3 (board after_centre_move)"
    by (simp add: b centre_taken_def shape3x3_def)
  have h3: "list_all (\<lambda>(row, col). cell (board after_centre_move) row col \<in> {0, 1, 2}) all_cells"
    by (simp add: b centre_taken_def all_cells_eq cell_def)
  have h4: "\<not> check_win (board after_centre_move) 1"
    by (simp add: b centre_taken_def check_win_def cell_def upt3)
  have h5: "\<not> check_draw (board after_centre_move)"
    by (simp add: b centre_taken_def check_draw_def)
  have h6: "mset (shuffled_corners (centre_turns 0)) = mset corners"
    by (simp add: centre_turns_def corners_def)
  have h7: "mset (shuffled_edges (centre_turns 0)) = mset edges"
    by (simp add: centre_turns_def)
  have h8: "list_all id (red_blocks_used after_centre_move)"
    by (simp add: after_centre_move_def all_red_used_def)
  from out_of_blocks_ends_game
         [of all_red_used centre_turns 0 "(1, 1)" after_centre_move, OF h1 h2 h3 h4 h5 h6 h7 h8]
       h1 h2 h4 h5 h8 b
  show ?thesis by auto
qed

end
